theory Spec2Isabelle
  imports Complex_Main "HOL-Library.Multiset" "HOL-Library.Word"
begin

section \<open>Block-partitioned local attention of Mesh TensorFlow\<close>

text \<open>
  The development embeds the attention routines of \<^verbatim>\<open>mesh_tensorflow/layers.py\<close> and the
  relative-position bucketing of \<^verbatim>\<open>mesh_tensorflow/transformer/transformer_layers.py\<close>.
  Tensors are nested lists indexed in the order of their shape; batch dimensions are
  carried pointwise by every routine and one batch element is modelled.  Floating-point
  values are read as real numbers.  Sizes of dimensions are natural numbers.
\<close>

subsection \<open>Errors raised while the graph is built\<close>

datatype error = ZeroDivisionError | ValueError string | ReshapeError

subsection \<open>Choosing the block length (\<^verbatim>\<open>masked_local_attention_1d\<close>)\<close>

text \<open>
  \<^verbatim>\<open>block_length = max(window_size, 128)
  while length_per_split % block_length != 0:
    block_length -= 1\<close>

  The counter starts at a value of at least 128 and only decreases by one, so it is a
  natural number; \<^verbatim>\<open>x % 0\<close> raises in Python.
\<close>

fun block_length_loop :: "nat \<Rightarrow> nat \<Rightarrow> error + nat" where
  "block_length_loop length_per_split 0 = Inl ZeroDivisionError"
| "block_length_loop length_per_split (Suc b) =
     (if length_per_split mod Suc b \<noteq> 0 then block_length_loop length_per_split b
      else Inr (Suc b))"

text \<open>
  The pair \<open>(num_blocks, block_length)\<close> of the sizes of the two dimensions that replace
  the length dimension; \<open>length_per_split\<close> defaults to the whole length.
\<close>

definition block_partition :: "nat \<Rightarrow> nat \<Rightarrow> nat option \<Rightarrow> error + (nat \<times> nat)" where
  "block_partition length_size window_size length_per_split =
     (let lps = (case length_per_split of None \<Rightarrow> length_size | Some s \<Rightarrow> s) in
      case block_length_loop lps (max window_size 128) of
        Inl e \<Rightarrow> Inl e
      | Inr block_length \<Rightarrow> Inr (length_size div block_length, block_length))"

subsection \<open>Attention biases\<close>

text \<open>
  \<^verbatim>\<open>mtf.cast\<close> of a boolean tensor to a numeric type: true is one, false is zero.
\<close>

definition cast_bool :: "bool \<Rightarrow> real" where
  "cast_bool b = (if b then 1 else 0)"

text \<open>
  The bias that \<^verbatim>\<open>masked_local_attention_1d\<close> adds to the logits of every block: the
  memory positions \<open>mpos\<close> range over the padded memory block of
  \<open>window_size + block_length\<close> entries, the query positions are shifted by
  \<open>window_size\<close>.  Row \<open>i\<close> belongs to query position \<open>i\<close> of the block, column \<open>j\<close> to
  position \<open>j\<close> of the augmented memory.

  \<^verbatim>\<open>mpos = mtf.range(x.mesh, padded_memory_block_length, tf.float32)
  qpos = mtf.range(x.mesh, query_block_length, tf.float32) + window_size
  mask = mtf.cast(mtf.greater(mpos, qpos), x.dtype) * -1e9
  mask += mtf.cast(mtf.less_equal(mpos, qpos - block_length), x.dtype) * -1e9\<close>
\<close>

definition local_attention_mask :: "nat \<Rightarrow> nat \<Rightarrow> real list list" where
  "local_attention_mask window_size block_length =
     map (\<lambda>i. map (\<lambda>j.
            let mpos = int j; qpos = int i + int window_size in
            cast_bool (mpos > qpos) * (- 1000000000)
            + cast_bool (mpos \<le> qpos - int block_length) * (- 1000000000))
          [0..<window_size + block_length])
       [0..<block_length]"

text \<open>
  \<^verbatim>\<open>attention_bias_local_block(mesh, block_length, memory_length)\<close>.  The size of the
  memory dimension that is passed in is replaced by the size of the block dimension, so
  only its name survives; a block of zeros of shape \<open>[block_length, block_length]\<close> is
  concatenated along the memory axis with the strict upper triangle, and the result is
  cast to float and multiplied by \<open>-1e9\<close>.
\<close>

definition attention_bias_local_block :: "nat \<Rightarrow> nat \<Rightarrow> real list list" where
  "attention_bias_local_block block_length memory_length =
     (let memory_length = block_length;
          memory_mask = replicate block_length (replicate memory_length (0::int));
          mask' = map (\<lambda>i. map (\<lambda>j. if i < j then (1::int) else 0) [0..<memory_length])
                   [0..<block_length]
      in map (\<lambda>row. map (\<lambda>x. real_of_int x * (- 1000000000)) row)
           (map2 (@) memory_mask mask'))"

text \<open>
  The mask of \<^verbatim>\<open>local_self_attention_spatial_blocks\<close>: none unless \<^verbatim>\<open>mask_right\<close>;
  the memory width dimension is the renamed block width dimension, of the same size.
\<close>

definition spatial_blocks_mask :: "bool \<Rightarrow> nat \<Rightarrow> real list list option" where
  "spatial_blocks_mask mask_right w_dim =
     (if mask_right then Some (attention_bias_local_block w_dim w_dim) else None)"


subsection \<open>Shapes and the checks of \<^verbatim>\<open>multihead_attention\<close>\<close>

text \<open>
  A dimension is a name with a size, compared by both; a shape is the list of the
  dimensions of a tensor.
\<close>

datatype dimension = Dimension (dim_name: string) (dim_size: nat)

type_synonym shape = "dimension list"

text \<open>
  The operations that a routine adds to the graph, in the order of construction.  An
  einsum is recorded with its output shape.
\<close>

datatype graph_op =
    Get_variable string
  | Unstack
  | Rename_dimension
  | Einsum shape
  | Add_mask
  | Softmax
  | Dropout

text \<open>
  Python's \<^verbatim>\<open>a, b = xs\<close> raises \<^verbatim>\<open>ValueError\<close> unless \<open>xs\<close> has exactly two elements.
\<close>

definition unpack2 :: "'a list \<Rightarrow> error + 'a \<times> 'a" where
  "unpack2 xs =
     (case xs of
        [a, b] \<Rightarrow> Inr (a, b)
      | _ \<Rightarrow> Inl (ValueError ''wrong number of values to unpack''))"

text \<open>
  Modelled from the spec: shapes are built by the tensor runtime, which is not part of
  the sources.  A shape is an ordered sequence of dimensions without duplicates; building
  a shape that holds a dimension twice is a configuration error, raised as a
  \<^verbatim>\<open>ValueError\<close> while the graph is constructed.
\<close>

definition mtf_Shape :: "dimension list \<Rightarrow> error + shape" where
  "mtf_Shape dims =
     (if distinct dims then Inr dims
      else Inl (ValueError ''Shape must not have repeated dimensions''))"

text \<open>
  Modelled from the spec: \<^verbatim>\<open>rename_dimension\<close>, renaming an axis without moving data, is a
  primitive of the tensor runtime and not part of the sources.  The renamed dimensions
  form a new shape.
\<close>

definition rename_dimension :: "shape \<Rightarrow> string \<Rightarrow> string \<Rightarrow> error + shape" where
  "rename_dimension x old_name new_name =
     mtf_Shape (map (\<lambda>d. if dim_name d = old_name then Dimension new_name (dim_size d) else d) x)"

definition rename_length_to_memory_length :: "shape \<Rightarrow> string \<Rightarrow> error + shape" where
  "rename_length_to_memory_length x length_name =
     rename_dimension x length_name ''memory_length''"

text \<open>
  \<^verbatim>\<open>multihead_attention_params(mesh, heads, io_channels, kv_channels, variable_dtype,
  combine)\<close> on shapes.  The standard deviations are computed first; Python raises
  \<^verbatim>\<open>ZeroDivisionError\<close> for zero to a negative power.  With \<open>combine\<close> the stacked variable
  of shape \<open>[qkvo, heads, io_channels, kv_channels]\<close> is created and unstacked, otherwise
  four variables of shape \<open>[heads, io_channels, kv_channels]\<close> are created.  The result is
  the error or the operations added to the graph.

  \<^verbatim>\<open>qkvo = mtf.Dimension("qkvo", 4)
  qk_stddev = (io_channels.size ** -0.5) * (kv_channels.size ** -0.25)
  v_stddev = io_channels.size ** -0.5
  o_stddev = (io_channels.size * heads.size) ** -0.5
  if combine:
    var = mtf.get_variable(
        mesh, "qkvo", mtf.Shape([qkvo, heads, io_channels, kv_channels]), ...)
    return mtf.unstack(var, qkvo)
  else:
    return [mtf.get_variable(
        mesh, name, mtf.Shape([heads, io_channels, kv_channels]), ...)
        for name, stddev in zip(["q", "k", "v", "o"], ...)]\<close>
\<close>

definition multihead_attention_params ::
  "dimension \<Rightarrow> dimension \<Rightarrow> dimension \<Rightarrow> bool \<Rightarrow> error + graph_op list" where
  "multihead_attention_params heads io_channels kv_channels combine =
     (let qkvo = Dimension ''qkvo'' 4 in
      if dim_size io_channels = 0 \<or> dim_size kv_channels = 0 then Inl ZeroDivisionError
      else if dim_size io_channels * dim_size heads = 0 then Inl ZeroDivisionError
      else if combine then
        (case mtf_Shape [qkvo, heads, io_channels, kv_channels] of
           Inl e \<Rightarrow> Inl e
         | Inr var_shape \<Rightarrow> Inr [Get_variable ''qkvo'', Unstack])
      else
        (case mtf_Shape [heads, io_channels, kv_channels] of
           Inl e \<Rightarrow> Inl e
         | Inr var_shape \<Rightarrow> Inr (map Get_variable [''q'', ''k'', ''v'', ''o''])))"

text \<open>
  \<^verbatim>\<open>multihead_attention_vars\<close>, the deprecated version of \<^verbatim>\<open>multihead_attention_params\<close>
  with \<^verbatim>\<open>combine=True\<close>.
\<close>

definition multihead_attention_vars :: "dimension \<Rightarrow> dimension \<Rightarrow> dimension \<Rightarrow> error + graph_op list" where
  "multihead_attention_vars heads io_channels kv_channels =
     multihead_attention_params heads io_channels kv_channels True"

text \<open>
  \<^verbatim>\<open>dot_product_attention\<close> on shapes: \<open>q\<close>, \<open>k\<close> and \<open>v\<close> are the shapes of the operands.
  The result is the list of operations added to the graph and either the error raised or
  the shape of the output.

  \<^verbatim>\<open>length_kv = k.shape.dims[-2]
  logits_shape = mtf.Shape(q.shape.dims[:-1] + [length_kv])
  logits = mtf.einsum([q, k], logits_shape)
  ...
  depth_v = v.shape.dims[-1]
  outputs_shape = mtf.Shape(q.shape.dims[:-1] + [depth_v])
  outputs = mtf.einsum([weights, v], outputs_shape)\<close>
\<close>

definition dot_product_attention_graph ::
  "shape \<Rightarrow> shape \<Rightarrow> shape \<Rightarrow> bool \<Rightarrow> real \<Rightarrow> graph_op list \<times> (error + shape)" where
  "dot_product_attention_graph q k v has_mask dropout =
     (let length_kv = k ! (length k - 2) in
      case mtf_Shape (butlast q @ [length_kv]) of
        Inl e \<Rightarrow> ([], Inl e)
      | Inr logits_shape \<Rightarrow>
          (let ops = [Einsum logits_shape]
                 @ (if has_mask then [Add_mask] else [])
                 @ [Softmax]
                 @ (if dropout \<noteq> 0 then [Dropout] else []);
               depth_v = last v
           in case mtf_Shape (butlast q @ [depth_v]) of
                Inl e \<Rightarrow> (ops, Inl e)
              | Inr outputs_shape \<Rightarrow> (ops @ [Einsum outputs_shape], Inr outputs_shape)))"

text \<open>
  \<^verbatim>\<open>multihead_attention(query_antecedent, memory_antecedent, mask, kv_channels, heads,
  dropout)\<close> on shapes: the result is the list of operations added to the graph and either
  the error raised or the shape of the output.  \<^verbatim>\<open>dims[:-2]\<close> is \<open>take (length dims - 2)\<close>
  and \<^verbatim>\<open>dims[-2:]\<close> is \<open>drop (length dims - 2)\<close>.  The first definition is the part of
  the routine from the two checks on, given the operations built so far.

  \<^verbatim>\<open>memory_batch_dims = memory_antecedent.shape.dims[:-2]
  memory_length, memory_channels = memory_antecedent.shape.dims[-2:]
  if memory_batch_dims != batch_dims:
    raise ValueError("memory batch must equal query batch")
  if memory_channels != io_channels:
    raise ValueError("memory channels must equal query channels")
  q = mtf.einsum(
      [query_antecedent, wq],
      mtf.Shape(batch_dims + [heads, query_length, kv_channels]))
  k = mtf.einsum(
      [memory_antecedent, wk],
      mtf.Shape(batch_dims + [heads, memory_length, kv_channels]))
  v = mtf.einsum(
      [memory_antecedent, wv],
      mtf.Shape(batch_dims + [heads, memory_length, kv_channels]))
  o = dot_product_attention(
      q, k, v, mask, dropout, dropout_broadcast_dims)
  return mtf.einsum(
      [o, wo], mtf.Shape(batch_dims + [query_length, io_channels]))\<close>
\<close>

definition multihead_attention_checks ::
  "graph_op list \<Rightarrow> shape \<Rightarrow> dimension \<Rightarrow> dimension \<Rightarrow> shape \<Rightarrow> bool \<Rightarrow> dimension
     \<Rightarrow> dimension \<Rightarrow> real \<Rightarrow> graph_op list \<times> (error + shape)" where
  "multihead_attention_checks ops batch_dims query_length io_channels memory_antecedent has_mask
       kv_channels heads dropout =
     (let memory_batch_dims = take (length memory_antecedent - 2) memory_antecedent in
      case unpack2 (drop (length memory_antecedent - 2) memory_antecedent) of
        Inl e \<Rightarrow> (ops, Inl e)
      | Inr (memory_length, memory_channels) \<Rightarrow>
          if memory_batch_dims \<noteq> batch_dims then
            (ops, Inl (ValueError ''memory batch must equal query batch''))
          else if memory_channels \<noteq> io_channels then
            (ops, Inl (ValueError ''memory channels must equal query channels''))
          else
            (case mtf_Shape (batch_dims @ [heads, query_length, kv_channels]) of
               Inl e \<Rightarrow> (ops, Inl e)
             | Inr q \<Rightarrow>
                 (case mtf_Shape (batch_dims @ [heads, memory_length, kv_channels]) of
                    Inl e \<Rightarrow> (ops @ [Einsum q], Inl e)
                  | Inr k \<Rightarrow>
                      (let v = k;
                           ops = ops @ [Einsum q, Einsum k, Einsum v]
                       in case dot_product_attention_graph q k v has_mask dropout of
                            (attention_ops, Inl e) \<Rightarrow> (ops @ attention_ops, Inl e)
                          | (attention_ops, Inr o_shape) \<Rightarrow>
                              (case mtf_Shape (batch_dims @ [query_length, io_channels]) of
                                 Inl e \<Rightarrow> (ops @ attention_ops, Inl e)
                               | Inr y \<Rightarrow> (ops @ attention_ops @ [Einsum y], Inr y))))))"

definition multihead_attention ::
  "shape \<Rightarrow> shape option \<Rightarrow> bool \<Rightarrow> dimension \<Rightarrow> dimension \<Rightarrow> real
     \<Rightarrow> graph_op list \<times> (error + shape)" where
  "multihead_attention query_antecedent memory_antecedent has_mask kv_channels heads dropout =
     (let batch_dims = take (length query_antecedent - 2) query_antecedent in
      case unpack2 (drop (length query_antecedent - 2) query_antecedent) of
        Inl e \<Rightarrow> ([], Inl e)
      | Inr (query_length, io_channels) \<Rightarrow>
          (case multihead_attention_vars heads io_channels kv_channels of
             Inl e \<Rightarrow> ([], Inl e)
           | Inr ops \<Rightarrow>
               (case memory_antecedent of
                  None \<Rightarrow>
                    (case rename_length_to_memory_length query_antecedent (dim_name query_length) of
                       Inl e \<Rightarrow> (ops, Inl e)
                     | Inr m \<Rightarrow>
                         multihead_attention_checks (ops @ [Rename_dimension]) batch_dims
                           query_length io_channels m has_mask kv_channels heads dropout)
                | Some m \<Rightarrow>
                    multihead_attention_checks ops batch_dims query_length io_channels m has_mask
                      kv_channels heads dropout)))"


subsection \<open>Tensors and the primitives of the tensor runtime\<close>

type_synonym tensor1 = "real list"
type_synonym tensor2 = "real list list"
type_synonym tensor3 = "real list list list"

text \<open>
  The sizes of the named dimensions \<^verbatim>\<open>heads\<close>, \<^verbatim>\<open>io_channels\<close> and \<^verbatim>\<open>kv_channels\<close>, which the
  routines read off the shapes of their arguments.
\<close>

record attention_dims =
  heads :: nat
  io_channels :: nat
  kv_channels :: nat

text \<open>
  The four projection tensors \<^verbatim>\<open>wq, wk, wv, wo\<close>, each of shape
  \<^verbatim>\<open>[heads, io_channels, kv_channels]\<close>.
\<close>

record attention_params =
  wq :: tensor3
  wk :: tensor3
  wv :: tensor3
  wo :: tensor3

text \<open>
  Modelled from the spec: \<^verbatim>\<open>einsum(tensors, output_shape)\<close>, the generalized contraction to
  a named target shape, is a primitive of the tensor runtime and not part of the sources.
  The dimensions of the operands that are absent from the output shape are summed over.
  Four instances occur: an input vector with a projection tensor (\<^verbatim>\<open>io_channels\<close> summed),
  a query with the keys (the key depth summed), the weights with the values (the memory
  length summed), and the attention output with the output projection (\<^verbatim>\<open>heads\<close> and
  \<^verbatim>\<open>kv_channels\<close> summed).
\<close>

definition einsum_x_w :: "attention_dims \<Rightarrow> tensor1 \<Rightarrow> tensor3 \<Rightarrow> tensor2" where
  "einsum_x_w d x w =
     map (\<lambda>h. map (\<lambda>c. \<Sum>i\<leftarrow>[0..<io_channels d]. x ! i * w ! h ! i ! c) [0..<kv_channels d])
       [0..<heads d]"

definition einsum_q_k :: "nat \<Rightarrow> nat \<Rightarrow> tensor1 \<Rightarrow> tensor2 \<Rightarrow> tensor1" where
  "einsum_q_k length_kv depth_k q k =
     map (\<lambda>j. \<Sum>c\<leftarrow>[0..<depth_k]. q ! c * k ! j ! c) [0..<length_kv]"

definition einsum_weights_v :: "nat \<Rightarrow> nat \<Rightarrow> tensor1 \<Rightarrow> tensor2 \<Rightarrow> tensor1" where
  "einsum_weights_v length_kv depth_v weights v =
     map (\<lambda>c. \<Sum>j\<leftarrow>[0..<length_kv]. weights ! j * v ! j ! c) [0..<depth_v]"

definition einsum_o_wo :: "attention_dims \<Rightarrow> tensor2 \<Rightarrow> tensor3 \<Rightarrow> tensor1" where
  "einsum_o_wo d o' w =
     map (\<lambda>i. \<Sum>h\<leftarrow>[0..<heads d]. \<Sum>c\<leftarrow>[0..<kv_channels d]. o' ! h ! c * w ! h ! i ! c)
       [0..<io_channels d]"

text \<open>
  Modelled from the spec: the exponential of the tensor runtime is not part of the
  sources.  The tensors are single-precision floats; floating-point values are read as
  real numbers, with one exception that the masking by a ``\<open>-\<infinity>\<close>-equivalent large negative
  constant'' relies on: the exponential of a single-precision float underflows to
  exactly zero below about \<open>-103.98\<close> (the smallest positive single-precision float is
  \<open>2\<^sup>-\<^sup>1\<^sup>4\<^sup>9\<close>).  The model returns zero below \<open>-104\<close> and the real exponential from there
  on.
\<close>

definition exp_float32 :: "real \<Rightarrow> real" where
  "exp_float32 x = (if x < - 104 then 0 else exp x)"

text \<open>
  Modelled from the spec: the softmax over the memory axis ("softmax-with-log-sum-exp",
  "numerically-stable log-sum-exp") is a primitive of the tensor runtime and not part of
  the sources.  The logarithm of the sum of the exponentials is computed after the
  largest logit has been subtracted, and every logit is reduced by it before it is
  exponentiated.
\<close>

definition reduce_logsumexp :: "tensor1 \<Rightarrow> real" where
  "reduce_logsumexp x =
     (let max_logit = Max (set x) in ln (\<Sum>y\<leftarrow>x. exp_float32 (y - max_logit)) + max_logit)"

definition softmax :: "tensor1 \<Rightarrow> tensor1" where
  "softmax logits = map (\<lambda>x. exp_float32 (x - reduce_logsumexp logits)) logits"

text \<open>
  Modelled from the spec: \<^verbatim>\<open>one_hot\<close> is a primitive of the tensor runtime and not part of
  the sources; the vector over a dimension of size \<open>n\<close> is one at the given index and zero
  elsewhere, and all zero when the index is outside the dimension.
\<close>

definition one_hot :: "int \<Rightarrow> nat \<Rightarrow> tensor1" where
  "one_hot index n = map (\<lambda>p. if int p = index then 1 else 0) [0..<n]"

text \<open>
  Modelled from the spec: \<^verbatim>\<open>where\<close> (select) is a primitive of the tensor runtime and not
  part of the sources.  Here the condition ranges over the window, the first operand over
  \<^verbatim>\<open>[heads, kv_channels]\<close> and the second over the output shape
  \<^verbatim>\<open>[heads, window_length, kv_channels]\<close>.
\<close>

definition where_window ::
  "attention_dims \<Rightarrow> nat \<Rightarrow> bool list \<Rightarrow> tensor2 \<Rightarrow> tensor3 \<Rightarrow> tensor3" where
  "where_window d window_length cond a b =
     map (\<lambda>h. map (\<lambda>p. map (\<lambda>c. if cond ! p then a ! h ! c else b ! h ! p ! c)
                        [0..<kv_channels d])
                [0..<window_length])
       [0..<heads d]"

subsection \<open>The dot-product attention kernel\<close>

text \<open>
  \<^verbatim>\<open>dot_product_attention(q, k, v, mask)\<close> with the default \<^verbatim>\<open>dropout=0.0\<close> and no extra logit.
  The contraction of \<open>q\<close> with \<open>k\<close> keeps every dimension of \<open>q\<close> but the last, so the kernel
  acts on each query vector separately; it is modelled for one query vector \<open>q\<close> of
  \<open>depth_k\<close> entries, keys of shape \<open>[length_kv, depth_k]\<close>, values of shape
  \<open>[length_kv, depth_v]\<close> and an optional bias over the memory axis.

  \<^verbatim>\<open>logits = mtf.einsum([q, k], logits_shape)
  if mask is not None:
    logits += mask
  weights = mtf.softmax(logits, length_kv, extra_logit=extra_logit)
  outputs = mtf.einsum([weights, v], outputs_shape)\<close>
\<close>

definition attention_logits ::
  "nat \<Rightarrow> nat \<Rightarrow> tensor1 \<Rightarrow> tensor2 \<Rightarrow> tensor1 option \<Rightarrow> tensor1" where
  "attention_logits length_kv depth_k q k mask' =
     (let logits = einsum_q_k length_kv depth_k q k in
      case mask' of
        None \<Rightarrow> logits
      | Some m \<Rightarrow> map (\<lambda>j. logits ! j + m ! j) [0..<length_kv])"

definition dot_product_attention ::
  "nat \<Rightarrow> nat \<Rightarrow> nat \<Rightarrow> tensor1 \<Rightarrow> tensor2 \<Rightarrow> tensor2 \<Rightarrow> tensor1 option \<Rightarrow> tensor1" where
  "dot_product_attention length_kv depth_k depth_v q k v mask' =
     (let logits = attention_logits length_kv depth_k q k mask';
          weights = softmax logits
      in einsum_weights_v length_kv depth_v weights v)"

text \<open>
  The standard deviations with which \<^verbatim>\<open>multihead_attention_params\<close> initializes the four
  projections, in the order q, k, v, o (Python's \<^verbatim>\<open>**\<close> with a float exponent).
\<close>

definition qk_stddev :: "attention_dims \<Rightarrow> real" where
  "qk_stddev d = real (io_channels d) powr (- 0.5) * real (kv_channels d) powr (- 0.25)"

definition v_stddev :: "attention_dims \<Rightarrow> real" where
  "v_stddev d = real (io_channels d) powr (- 0.5)"

definition o_stddev :: "attention_dims \<Rightarrow> real" where
  "o_stddev d = (real (io_channels d) * real (heads d)) powr (- 0.5)"

definition multihead_attention_stddevs :: "attention_dims \<Rightarrow> real list" where
  "multihead_attention_stddevs d = [qk_stddev d, qk_stddev d, v_stddev d, o_stddev d]"

subsection \<open>Incremental decoding steps\<close>

text \<open>
  \<^verbatim>\<open>masked_local_attention_1d_incremental(x, prev_k, prev_v, step_num, params)\<close>: one
  decode step; \<open>x\<close> has shape \<open>[io_channels]\<close>, the states have shape
  \<open>[heads, window_length, kv_channels]\<close>.  The result is \<open>(y, new_k, new_v)\<close>.

  \<^verbatim>\<open>current_position = mtf.equal(
      mtf.range(x.mesh, window_length, dtype=tf.int32),
      mtf.mod(step_num, window_length.size))
  k = mtf.where(current_position, k, prev_k, output_shape=prev_k.shape)
  v = mtf.where(current_position, v, prev_v, output_shape=prev_v.shape)
  o = dot_product_attention(q, k, v, mask=None)
  y = mtf.einsum([o, wo], x.shape)\<close>
\<close>

definition masked_local_attention_1d_incremental ::
  "attention_dims \<Rightarrow> nat \<Rightarrow> attention_params \<Rightarrow> tensor1 \<Rightarrow> tensor3 \<Rightarrow> tensor3 \<Rightarrow> int
     \<Rightarrow> tensor1 \<times> tensor3 \<times> tensor3" where
  "masked_local_attention_1d_incremental d window_length params x prev_k prev_v step_num =
     (let q = einsum_x_w d x (wq params);
          k = einsum_x_w d x (wk params);
          v = einsum_x_w d x (wv params);
          current_position =
            map (\<lambda>p. int p = step_num mod int window_length) [0..<window_length];
          k = where_window d window_length current_position k prev_k;
          v = where_window d window_length current_position v prev_v;
          o' = map (\<lambda>h. dot_product_attention window_length (kv_channels d) (kv_channels d)
                           (q ! h) (k ! h) (v ! h) None)
                 [0..<heads d];
          y = einsum_o_wo d o' (wo params)
      in (y, k, v))"

text \<open>
  \<^verbatim>\<open>multihead_self_attention_incremental(query_antecedent, prev_k, prev_v, step_num)\<close>: one
  decode step of full self-attention; the states have shape
  \<open>[heads, memory_length, kv_channels]\<close>.  The projections are created inside the routine
  and are a parameter here.

  \<^verbatim>\<open>k = prev_k + mtf.multiply(
      k, mtf.one_hot(step_num, memory_length, dtype=prev_k.dtype),
      output_shape=prev_k.shape)
  v = prev_v + mtf.multiply(
      v, mtf.one_hot(step_num, memory_length, dtype=prev_v.dtype),
      output_shape=prev_v.shape)
  mask = mtf.cast(
      mtf.greater(mtf.range(
          query_antecedent.mesh, memory_length, dtype=tf.int32), step_num),
      q.dtype) * -1e9\<close>
\<close>

definition add_one_hot ::
  "attention_dims \<Rightarrow> nat \<Rightarrow> tensor3 \<Rightarrow> tensor2 \<Rightarrow> int \<Rightarrow> tensor3" where
  "add_one_hot d memory_length prev a step_num =
     map (\<lambda>h. map (\<lambda>p. map (\<lambda>c. prev ! h ! p ! c + a ! h ! c * one_hot step_num memory_length ! p)
                        [0..<kv_channels d])
                [0..<memory_length])
       [0..<heads d]"

definition multihead_self_attention_incremental ::
  "attention_dims \<Rightarrow> nat \<Rightarrow> attention_params \<Rightarrow> tensor1 \<Rightarrow> tensor3 \<Rightarrow> tensor3 \<Rightarrow> int
     \<Rightarrow> tensor1 \<times> tensor3 \<times> tensor3" where
  "multihead_self_attention_incremental d memory_length params query_antecedent prev_k prev_v
       step_num =
     (let memory_antecedent = query_antecedent;
          q = einsum_x_w d query_antecedent (wq params);
          k = einsum_x_w d memory_antecedent (wk params);
          v = einsum_x_w d memory_antecedent (wv params);
          k = add_one_hot d memory_length prev_k k step_num;
          v = add_one_hot d memory_length prev_v v step_num;
          mask' = map (\<lambda>p. cast_bool (int p > step_num) * (- 1000000000)) [0..<memory_length];
          o' = map (\<lambda>h. dot_product_attention memory_length (kv_channels d) (kv_channels d)
                           (q ! h) (k ! h) (v ! h) (Some mask'))
                 [0..<heads d];
          y = einsum_o_wo d o' (wo params)
      in (y, k, v))"


text \<open>The components of the triple \<open>(y, new_k, new_v)\<close> that a decode step returns.\<close>

definition output_y :: "tensor1 \<times> tensor3 \<times> tensor3 \<Rightarrow> tensor1" where
  "output_y r = fst r"

definition new_k :: "tensor1 \<times> tensor3 \<times> tensor3 \<Rightarrow> tensor3" where
  "new_k r = fst (snd r)"

definition new_v :: "tensor1 \<times> tensor3 \<times> tensor3 \<Rightarrow> tensor3" where
  "new_v r = snd (snd r)"


subsection \<open>Masked local attention over a whole sequence\<close>

type_synonym tensor4 = "real list list list list"

text \<open>
  The projection of a whole sequence \<open>x\<close> of shape \<open>[length, io_channels]\<close> to the shape
  \<open>[heads, length, kv_channels]\<close>, an instance of the contraction described above.
\<close>

definition einsum_xs_w :: "attention_dims \<Rightarrow> nat \<Rightarrow> tensor2 \<Rightarrow> tensor3 \<Rightarrow> tensor3" where
  "einsum_xs_w d length_size x w =
     map (\<lambda>h. map (\<lambda>t. map (\<lambda>c. \<Sum>i\<leftarrow>[0..<io_channels d]. x ! t ! i * w ! h ! i ! c)
                        [0..<kv_channels d])
                [0..<length_size])
       [0..<heads d]"

text \<open>
  Modelled from the spec: \<^verbatim>\<open>reshape(tensor, new_shape)\<close>, the shape reinterpretation that
  preserves element order and count, is a primitive of the tensor runtime and not part
  of the sources.  The length axis is split into \<open>[num_blocks, block_length]\<close> and joined
  again; the caller checks that the count is preserved.
\<close>

definition reshape_blocks :: "attention_dims \<Rightarrow> nat \<Rightarrow> nat \<Rightarrow> tensor3 \<Rightarrow> tensor4" where
  "reshape_blocks d num_blocks block_length a =
     map (\<lambda>h. map (\<lambda>b. map (\<lambda>i. a ! h ! (b * block_length + i)) [0..<block_length])
                [0..<num_blocks])
       [0..<heads d]"

definition reshape_length :: "attention_dims \<Rightarrow> nat \<Rightarrow> nat \<Rightarrow> tensor4 \<Rightarrow> tensor3" where
  "reshape_length d length_size block_length a =
     map (\<lambda>h. map (\<lambda>t. a ! h ! (t div block_length) ! (t mod block_length)) [0..<length_size])
       [0..<heads d]"

text \<open>
  Modelled from the spec: \<^verbatim>\<open>left_halo_exchange(tensor, blocks_dim, block_size_dim,
  halo_size)\<close> is a primitive of the tensor runtime and not part of the sources.  Every
  block is extended on the left by the \<open>halo_size\<close> entries that precede it in the
  sequence; entries before the start of the sequence are zero-filled, never wrapped.
\<close>

definition left_halo_exchange :: "attention_dims \<Rightarrow> nat \<Rightarrow> nat \<Rightarrow> nat \<Rightarrow> tensor4 \<Rightarrow> tensor4" where
  "left_halo_exchange d num_blocks block_length halo_size a =
     map (\<lambda>h. map (\<lambda>b. map (\<lambda>j.
                   let g = int (b * block_length) + int j - int halo_size in
                   if g < 0 then replicate (kv_channels d) 0
                   else a ! h ! (nat g div block_length) ! (nat g mod block_length))
                 [0..<halo_size + block_length])
                [0..<num_blocks])
       [0..<heads d]"

text \<open>
  The blocked queries and the augmented keys and values of
  \<^verbatim>\<open>masked_local_attention_1d\<close>, of shapes \<open>[heads, num_blocks, block_length, kv_channels]\<close>
  and \<open>[heads, num_blocks, window_size + block_length, kv_channels]\<close>.

  \<^verbatim>\<open>q = mtf.einsum([x, wq], qkv_shape)
  q = mtf.reshape(q, q_shape)
  k = mtf.reshape(k, kv_shape)
  k = mtf.left_halo_exchange(k, num_blocks, memory_block_length, window_size)\<close>
\<close>

definition local_q ::
  "attention_dims \<Rightarrow> nat \<Rightarrow> nat \<Rightarrow> nat \<Rightarrow> attention_params \<Rightarrow> tensor2 \<Rightarrow> tensor4" where
  "local_q d length_size num_blocks block_length params x =
     reshape_blocks d num_blocks block_length (einsum_xs_w d length_size x (wq params))"

definition local_k ::
  "attention_dims \<Rightarrow> nat \<Rightarrow> nat \<Rightarrow> nat \<Rightarrow> nat \<Rightarrow> attention_params \<Rightarrow> tensor2 \<Rightarrow> tensor4" where
  "local_k d length_size num_blocks block_length window_size params x =
     left_halo_exchange d num_blocks block_length window_size
       (reshape_blocks d num_blocks block_length (einsum_xs_w d length_size x (wk params)))"

definition local_v ::
  "attention_dims \<Rightarrow> nat \<Rightarrow> nat \<Rightarrow> nat \<Rightarrow> nat \<Rightarrow> attention_params \<Rightarrow> tensor2 \<Rightarrow> tensor4" where
  "local_v d length_size num_blocks block_length window_size params x =
     left_halo_exchange d num_blocks block_length window_size
       (reshape_blocks d num_blocks block_length (einsum_xs_w d length_size x (wv params)))"

text \<open>
  \<^verbatim>\<open>masked_local_attention_1d(x, kv_channels, heads, window_size, length_per_split,
  params)\<close> for \<open>x\<close> of shape \<open>[length, io_channels]\<close>; the result has the shape of \<open>x\<close>.  The
  reshape into blocks fails unless the blocks cover the length.
\<close>

definition masked_local_attention_1d ::
  "attention_dims \<Rightarrow> nat \<Rightarrow> nat \<Rightarrow> nat option \<Rightarrow> attention_params \<Rightarrow> tensor2
     \<Rightarrow> error + tensor2" where
  "masked_local_attention_1d d length_size window_size length_per_split params x =
     (case block_partition length_size window_size length_per_split of
        Inl e \<Rightarrow> Inl e
      | Inr (num_blocks, block_length) \<Rightarrow>
          if num_blocks * block_length \<noteq> length_size then Inl ReshapeError
          else
            let q = local_q d length_size num_blocks block_length params x;
                k = local_k d length_size num_blocks block_length window_size params x;
                v = local_v d length_size num_blocks block_length window_size params x;
                mask' = local_attention_mask window_size block_length;
                o' = map (\<lambda>h. map (\<lambda>b. map (\<lambda>i.
                            dot_product_attention (window_size + block_length)
                              (kv_channels d) (kv_channels d)
                              (q ! h ! b ! i) (k ! h ! b) (v ! h ! b) (Some (mask' ! i)))
                          [0..<block_length])
                         [0..<num_blocks])
                       [0..<heads d];
                o' = reshape_length d length_size block_length o'
            in Inr (map (\<lambda>t. einsum_o_wo d (map (\<lambda>h. o' ! h ! t) [0..<heads d]) (wo params))
                      [0..<length_size]))"

subsection \<open>Decoding a sequence step by step\<close>

text \<open>
  The state before the first step: keys and values of shape
  \<open>[heads, window_length, kv_channels]\<close>, all zero.
\<close>

definition zero_state :: "attention_dims \<Rightarrow> nat \<Rightarrow> tensor3" where
  "zero_state d window_length =
     replicate (heads d) (replicate window_length (replicate (kv_channels d) 0))"

text \<open>
  The triple that step \<open>t\<close> returns when \<^verbatim>\<open>masked_local_attention_1d_incremental\<close> is run
  on the rows of \<open>x\<close> for the steps \<open>0, 1, \<dots>, t\<close> in turn, each step receiving the keys and
  values that the step before returned and the first one the zero state.
\<close>

primrec incremental_at ::
  "attention_dims \<Rightarrow> nat \<Rightarrow> attention_params \<Rightarrow> tensor2 \<Rightarrow> nat
     \<Rightarrow> tensor1 \<times> tensor3 \<times> tensor3" where
  "incremental_at d window_length params x 0 =
     masked_local_attention_1d_incremental d window_length params (x ! 0)
       (zero_state d window_length) (zero_state d window_length) 0"
| "incremental_at d window_length params x (Suc t) =
     (let r = incremental_at d window_length params x t in
      masked_local_attention_1d_incremental d window_length params (x ! Suc t)
        (new_k r) (new_v r) (int (Suc t)))"

text \<open>
  Two notions that relate the two routines.  The projected row of sequence position \<open>g\<close>
  for head \<open>h\<close> under a projection tensor \<open>w\<close>, zero before the start of the sequence; and
  the rows of a memory block that a row of the bias leaves visible, that is the pairs of
  key and value at the memory positions of bias zero, in memory order.
\<close>

definition proj_row :: "attention_dims \<Rightarrow> tensor3 \<Rightarrow> tensor2 \<Rightarrow> nat \<Rightarrow> int \<Rightarrow> tensor1" where
  "proj_row d w x h g =
     (if g < 0 then replicate (kv_channels d) 0 else einsum_x_w d (x ! nat g) w ! h)"

definition visible_rows :: "tensor1 \<Rightarrow> tensor2 \<Rightarrow> tensor2 \<Rightarrow> (tensor1 \<times> tensor1) list" where
  "visible_rows bias k v = map (\<lambda>j. (k ! j, v ! j)) (filter (\<lambda>j. bias ! j = 0) [0..<length bias])"

subsection \<open>Relative position buckets\<close>

text \<open>
  The entries of the tensors of relative positions are 32-bit signed integers: negation,
  absolute value, addition and multiplication wrap around, and comparisons read the
  signed value.
\<close>

type_synonym int32 = "32 word"

text \<open>
  Modelled from the spec: the elementwise operations of the tensor runtime that
  \<^verbatim>\<open>_relative_position_bucket\<close> applies (\<^verbatim>\<open>less\<close>, \<^verbatim>\<open>abs\<close>, \<^verbatim>\<open>maximum\<close>, \<^verbatim>\<open>minimum\<close>,
  \<^verbatim>\<open>to_float\<close>, \<^verbatim>\<open>log\<close>, \<^verbatim>\<open>to_int32\<close>, \<^verbatim>\<open>where\<close>) are not part of the sources.  They
  are read on one entry of the tensor; floating-point values are real numbers.
  \<^verbatim>\<open>to_int32\<close> drops the fractional part; for a value outside the range of \<open>int32\<close> the
  result of the cast is not determined by the sources and is given by the parameter
  \<open>out_of_range\<close>.
\<close>

definition to_int32 :: "(real \<Rightarrow> int32) \<Rightarrow> real \<Rightarrow> int32" where
  "to_int32 out_of_range x =
     (let z = (if 0 \<le> x then \<lfloor>x\<rfloor> else \<lceil>x\<rceil>) in
      if - 2147483648 \<le> z \<and> z < 2147483648 then word_of_int z else out_of_range x)"


text \<open>
  \<^verbatim>\<open>_relative_position_bucket(relative_position, bidirectional, num_buckets,
  max_distance)\<close> on one relative position.  The Python integers \<open>num_buckets\<close> and
  \<open>max_exact\<close> enter the tensor operations as \<open>int32\<close> scalars.  The division
  \<^verbatim>\<open>max_distance / max_exact\<close> is Python's true division of two integers and raises when
  \<open>max_exact\<close> is zero; \<^verbatim>\<open>math.log\<close> raises \<^verbatim>\<open>ValueError\<close> outside the positive numbers;
  when the logarithm is zero the tensor is divided by the Python number \<open>0.0\<close>, recorded
  as a division by zero.

  \<^verbatim>\<open>ret = 0
  n = -relative_position
  if bidirectional:
    num_buckets //= 2
    ret += mtf.to_int32(mtf.less(n, 0)) * num_buckets
    n = mtf.abs(n)
  else:
    n = mtf.maximum(n, 0)
  max_exact = num_buckets // 2
  is_small = mtf.less(n, max_exact)
  val_if_large = max_exact + mtf.to_int32(
      mtf.log(mtf.to_float(n) / max_exact)
      / math.log(max_distance / max_exact) * (num_buckets - max_exact))
  val_if_large = mtf.minimum(val_if_large, num_buckets - 1)
  ret += mtf.where(is_small, n, val_if_large)\<close>
\<close>

definition relative_position_bucket ::
  "(real \<Rightarrow> int32) \<Rightarrow> int32 \<Rightarrow> bool \<Rightarrow> nat \<Rightarrow> int \<Rightarrow> error + int32" where
  "relative_position_bucket out_of_range relative_position bidirectional num_buckets max_distance =
     (let ret = 0;
          n = - relative_position;
          num_buckets = (if bidirectional then int num_buckets div 2 else int num_buckets);
          ret = (if bidirectional
                 then ret + (if sint n < 0 then 1 else 0) * word_of_int num_buckets else ret);
          n = (if bidirectional then (if sint n < 0 then - n else n)
               else (if sint n < 0 then 0 else n));
          max_exact = num_buckets div 2;
          is_small = (sint n < max_exact)
      in if max_exact = 0 then Inl ZeroDivisionError
         else if real_of_int max_distance / real_of_int max_exact \<le> 0 then
           Inl (ValueError ''math domain error'')
         else if ln (real_of_int max_distance / real_of_int max_exact) = 0 then
           Inl ZeroDivisionError
         else
           let val_if_large = word_of_int max_exact + to_int32 out_of_range
                 (ln (real_of_int (sint n) / real_of_int max_exact)
                    / ln (real_of_int max_distance / real_of_int max_exact)
                    * real_of_int (num_buckets - max_exact));
               val_if_large = (if sint val_if_large \<le> num_buckets - 1 then val_if_large
                               else word_of_int (num_buckets - 1))
           in Inr (ret + (if is_small then n else val_if_large)))"




subsection \<open>Facts about the block length\<close>

lemma block_length_loop_largest:
  "0 < S \<Longrightarrow> 0 < n \<Longrightarrow>
   \<exists>b. block_length_loop S n = Inr b \<and> 0 < b \<and> b \<le> n \<and> S mod b = 0 \<and>
       (\<forall>d. b < d \<and> d \<le> n \<longrightarrow> S mod d \<noteq> 0)"
proof (induction n)
  case 0
  then show ?case by simp
next
  case (Suc n)
  show ?case
  proof (cases "S mod Suc n = 0")
    case True
    then show ?thesis by auto
  next
    case False
    then have "n \<noteq> 0" by (cases n) auto
    then obtain b where b: "block_length_loop S n = Inr b" "0 < b" "b \<le> n" "S mod b = 0"
      "\<forall>d. b < d \<and> d \<le> n \<longrightarrow> S mod d \<noteq> 0"
      using Suc by auto
    have "\<forall>d. b < d \<and> d \<le> Suc n \<longrightarrow> S mod d \<noteq> 0"
      using b(5) False by (auto simp: le_Suc_eq)
    with b False show ?thesis by auto
  qed
qed

text \<open>
  Claim C2.  For positive \<open>L\<close>, \<open>W\<close>, \<open>S\<close> with \<open>S\<close> dividing \<open>L\<close> (where \<open>S\<close> is the
  length per split, or \<open>L\<close> itself when none is given) the block-length selection raises no
  error and returns the largest \<open>b \<le> max W 128\<close> with \<open>S mod b = 0\<close>; the number of blocks
  \<open>L div b\<close> satisfies \<open>num_blocks * b = L\<close>.  The result may be \<open>1\<close>.
\<close>

theorem block_partition_largest_divisor:
  assumes "0 < L" and "0 < W" and "0 < S" and "S dvd L"
    and "lps = Some S \<or> (lps = None \<and> S = L)"
  shows "\<exists>num_blocks b. block_partition L W lps = Inr (num_blocks, b) \<and>
           0 < b \<and> b \<le> max W 128 \<and> S mod b = 0 \<and>
           (\<forall>d. d \<le> max W 128 \<and> S mod d = 0 \<longrightarrow> d \<le> b) \<and>
           num_blocks * b = L"
proof -
  have S: "(case lps of None \<Rightarrow> L | Some s \<Rightarrow> s) = S"
    using assms(5) by auto
  obtain b where b: "block_length_loop S (max W 128) = Inr b" "0 < b" "b \<le> max W 128"
    "S mod b = 0" "\<forall>d. b < d \<and> d \<le> max W 128 \<longrightarrow> S mod d \<noteq> 0"
  proof -
    have "0 < max W 128" by simp
    from block_length_loop_largest [OF assms(3) this]
    obtain b' where "block_length_loop S (max W 128) = Inr b' \<and> 0 < b' \<and> b' \<le> max W 128 \<and>
        S mod b' = 0 \<and> (\<forall>d. b' < d \<and> d \<le> max W 128 \<longrightarrow> S mod d \<noteq> 0)" ..
    then show ?thesis
      by (elim conjE) (rule that)
  qed
  have "b dvd S"
    using b(4) by (simp add: mod_eq_0_iff_dvd)
  then have "b dvd L"
    using assms(4) by (rule dvd_trans)
  then have nb: "L div b * b = L" by simp
  have largest: "\<forall>d. d \<le> max W 128 \<and> S mod d = 0 \<longrightarrow> d \<le> b"
  proof (intro allI impI)
    fix d assume d: "d \<le> max W 128 \<and> S mod d = 0"
    show "d \<le> b"
    proof (rule ccontr)
      assume "\<not> d \<le> b"
      then have "b < d \<and> d \<le> max W 128" using d by simp
      then have "S mod d \<noteq> 0" using b(5) by blast
      then show False using d by simp
    qed
  qed
  have "block_partition L W lps = Inr (L div b, b)"
    unfolding block_partition_def S Let_def b(1) by (simp only: sum.case)
  with b(2,3,4) nb largest show ?thesis
    by (intro exI[of _ "L div b"] exI[of _ b] conjI)
qed

theorem block_partition_largest_divisor_witness:
  "block_partition 8 2 (Some 4) = Inr (2, 4)"
proof -
  obtain n b where r: "block_partition 8 2 (Some 4) = Inr (n, b)" "0 < b" "4 mod b = 0"
    "\<forall>d. d \<le> max 2 128 \<and> (4::nat) mod d = 0 \<longrightarrow> d \<le> b" "n * b = 8"
    using block_partition_largest_divisor [of 8 2 4 "Some 4"] by auto
  have "b dvd 4" using r(3) by (simp add: mod_eq_0_iff_dvd)
  then have "b \<le> 4" by (simp add: dvd_imp_le)
  moreover have "4 \<le> b" using r(4) by simp
  ultimately have "b = 4" by simp
  with r(5) have "n = 2" by simp
  with r(1) \<open>b = 4\<close> show ?thesis by simp
qed

subsection \<open>Facts about the biases\<close>

lemma local_attention_mask_nth:
  assumes "i < B" and "j < W + B"
  shows "local_attention_mask W B ! i ! j =
           (if int i + int W < int j then - 1000000000 else 0)
           + (if int j \<le> int i + int W - int B then - 1000000000 else 0)"
  using assms by (simp add: local_attention_mask_def cast_bool_def Let_def)

lemma local_attention_mask_length:
  "length (local_attention_mask W B) = B"
  "i < B \<Longrightarrow> length (local_attention_mask W B ! i) = W + B"
  by (simp_all add: local_attention_mask_def)

lemma attention_bias_local_block_nth:
  assumes "i < B" and "j < 2 * B"
  shows "attention_bias_local_block B M ! i ! j = (if j \<le> i + B then 0 else - 1000000000)"
proof -
  have row: "attention_bias_local_block B M ! i =
      map (\<lambda>x. real_of_int x * (- 1000000000))
        (replicate B 0 @ map (\<lambda>j. if i < j then 1 else 0) [0..<B])"
    using assms(1) by (simp add: attention_bias_local_block_def Let_def)
  show ?thesis
  proof (cases "j < B")
    case True
    then show ?thesis using assms by (simp add: row nth_append)
  next
    case False
    then have "j - B < B" using assms(2) by simp
    then show ?thesis using False assms by (auto simp add: row nth_append)
  qed
qed

text \<open>
  Claim C3.  In \<^verbatim>\<open>local_self_attention_spatial_blocks\<close> with \<^verbatim>\<open>mask_right\<close> the memory of a
  block is widened on the left by a halo of the block's own width \<open>B\<close>, and the bias from
  \<^verbatim>\<open>attention_bias_local_block\<close> has one row of \<open>2 * B\<close> entries per query position.  Entry
  \<open>(i, j)\<close> is \<open>0\<close> exactly when \<open>j \<le> i + B\<close> and \<open>-1e9\<close> otherwise: all of the borrowed
  left half is visible and the block's own half up to and including the diagonal.
\<close>

theorem attention_bias_local_block_visible:
  assumes "i < B" and "j < 2 * B"
  shows "\<exists>bias. spatial_blocks_mask True B = Some bias \<and> length bias = B \<and>
           length (bias ! i) = 2 * B \<and>
           (bias ! i ! j = 0 \<longleftrightarrow> j \<le> i + B) \<and>
           (\<not> j \<le> i + B \<longrightarrow> bias ! i ! j = - 1000000000)"
proof -
  have "length (attention_bias_local_block B B) = B"
    by (simp add: attention_bias_local_block_def Let_def)
  moreover have "length (attention_bias_local_block B B ! i) = 2 * B"
    using assms(1) by (simp add: attention_bias_local_block_def Let_def)
  moreover have "attention_bias_local_block B B ! i ! j = 0 \<longleftrightarrow> j \<le> i + B"
    using attention_bias_local_block_nth [OF assms] by simp
  moreover have "\<not> j \<le> i + B \<longrightarrow> attention_bias_local_block B B ! i ! j = - 1000000000"
    using attention_bias_local_block_nth [OF assms] by simp
  ultimately show ?thesis
    by (simp add: spatial_blocks_mask_def)
qed

theorem attention_bias_local_block_visible_witness:
  "spatial_blocks_mask True 2 = Some [[0, 0, 0, - 1000000000], [0, 0, 0, 0]]"
proof -
  obtain bias where b: "spatial_blocks_mask True 2 = Some bias" "length bias = 2"
    using attention_bias_local_block_visible [of 0 2 3] by auto
  have r: "\<And>i j. i < 2 \<Longrightarrow> j < 4 \<Longrightarrow> length (bias ! i) = 4 \<and>
      bias ! i ! j = (if j \<le> i + 2 then 0 else - 1000000000)"
  proof -
    fix i j :: nat assume "i < 2" "j < 4"
    then show "length (bias ! i) = 4 \<and> bias ! i ! j = (if j \<le> i + 2 then 0 else - 1000000000)"
      using attention_bias_local_block_visible [of i 2 j] b(1) by auto
  qed
  have rows: "bias = [bias ! 0, bias ! 1]"
    using b(2) by (auto simp: list_eq_iff_nth_eq less_Suc_eq numeral_2_eq_2)
  have row: "\<And>i. i < 2 \<Longrightarrow> bias ! i = [bias ! i ! 0, bias ! i ! 1, bias ! i ! 2, bias ! i ! 3]"
  proof -
    fix i :: nat assume "i < 2"
    then have "length (bias ! i) = 4" using r [of i 0] by simp
    then show "bias ! i = [bias ! i ! 0, bias ! i ! 1, bias ! i ! 2, bias ! i ! 3]"
      by (auto simp: list_eq_iff_nth_eq less_Suc_eq numeral_eq_Suc)
  qed
  have "bias ! 0 = [0, 0, 0, - 1000000000]"
    using row [of 0] r [of 0 0] r [of 0 1] r [of 0 2] r [of 0 3] by simp
  moreover have "bias ! 1 = [0, 0, 0, 0]"
    using row [of 1] r [of 1 0] r [of 1 1] r [of 1 2] r [of 1 3] by simp
  ultimately show ?thesis using rows b(1) by simp
qed

text \<open>
  Claim C4.  For a sequence of length 8 with four positions per split and window size 2
  the block length is 4, there are 2 blocks, and the bias of
  \<^verbatim>\<open>masked_local_attention_1d\<close> has 4 rows of 6 entries.  Stated as "query position \<open>i\<close>
  sees exactly the memory positions \<open>j \<le> i + 2\<close>" the claim fails: the second term of the
  mask also hides the positions that lie \<open>block_length\<close> or more steps back, so query
  position 2 does not see memory position 0.
\<close>

theorem local_attention_mask_example_counterexample:
  "(0::nat) \<le> 2 + 2 \<and> local_attention_mask 2 4 ! 2 ! 0 = - 1000000000"
  using local_attention_mask_nth [of 2 4 0 2] by simp

text \<open>
  Claim C4, amended.  In the same configuration entry \<open>(i, j)\<close> of the bias is \<open>0\<close> exactly
  when \<open>i - 2 < j \<le> i + 2\<close> (written \<open>i < j + 2\<close> on natural numbers) and \<open>-1e9\<close> otherwise.
\<close>

theorem local_attention_mask_example:
  assumes "i < 4" and "j < 6"
  shows "block_partition 8 2 (Some 4) = Inr (2, 4) \<and>
         length (local_attention_mask 2 4) = 4 \<and>
         length (local_attention_mask 2 4 ! i) = 6 \<and>
         local_attention_mask 2 4 ! i ! j =
           (if i < j + 2 \<and> j \<le> i + 2 then 0 else - 1000000000)"
proof -
  have "block_partition 8 2 (Some 4) = Inr (2, 4)"
    by code_simp
  moreover have "local_attention_mask 2 4 ! i ! j =
           (if i < j + 2 \<and> j \<le> i + 2 then 0 else - 1000000000)"
    using local_attention_mask_nth [of i 4 j 2] assms by auto
  ultimately show ?thesis
    using assms local_attention_mask_length [of 2 4] local_attention_mask_length(2) [of i 4 2]
    by simp
qed

theorem local_attention_mask_example_witness:
  "(2::nat) < 4 \<and> (1::nat) < 6 \<and> local_attention_mask 2 4 ! 2 ! 1 = 0
   \<and> local_attention_mask 2 4 ! 2 ! 5 = - 1000000000"
  using local_attention_mask_example [of 2 1] local_attention_mask_example [of 2 5] by simp


subsection \<open>Facts about the decode steps\<close>

lemma einsum_x_w_nth:
  "h < heads d \<Longrightarrow> c < kv_channels d \<Longrightarrow>
   einsum_x_w d x w ! h ! c = (\<Sum>i\<leftarrow>[0..<io_channels d]. x ! i * w ! h ! i ! c)"
  by (simp add: einsum_x_w_def)

lemma where_window_nth:
  "h < heads d \<Longrightarrow> p < n \<Longrightarrow> c < kv_channels d \<Longrightarrow>
   where_window d n cond a b ! h ! p ! c = (if cond ! p then a ! h ! c else b ! h ! p ! c)"
  by (simp add: where_window_def)

lemma incremental_state:
  "new_k (masked_local_attention_1d_incremental d n params x prev_k prev_v t) =
     where_window d n (map (\<lambda>p. int p = t mod int n) [0..<n]) (einsum_x_w d x (wk params)) prev_k"
  "new_v (masked_local_attention_1d_incremental d n params x prev_k prev_v t) =
     where_window d n (map (\<lambda>p. int p = t mod int n) [0..<n]) (einsum_x_w d x (wv params)) prev_v"
  by (simp_all add: masked_local_attention_1d_incremental_def Let_def new_k_def new_v_def)

text \<open>
  Claim C5.  A decode step of \<^verbatim>\<open>masked_local_attention_1d_incremental\<close> with a window of
  \<open>n\<close> slots at step \<open>t\<close> returns states that hold the fresh key (value) projection of the
  input at slot \<open>t mod n\<close> and the previous state at every other slot.
\<close>

theorem masked_local_attention_1d_incremental_frame:
  assumes "0 < n" and "h < heads d" and "c < kv_channels d"
  shows "\<exists>p0<n. int p0 = t mod int n \<and>
           new_k (masked_local_attention_1d_incremental d n params x prev_k prev_v t) ! h ! p0 ! c
             = einsum_x_w d x (wk params) ! h ! c \<and>
           new_v (masked_local_attention_1d_incremental d n params x prev_k prev_v t) ! h ! p0 ! c
             = einsum_x_w d x (wv params) ! h ! c \<and>
           (\<forall>p<n. p \<noteq> p0 \<longrightarrow>
              new_k (masked_local_attention_1d_incremental d n params x prev_k prev_v t) ! h ! p ! c
                = prev_k ! h ! p ! c \<and>
              new_v (masked_local_attention_1d_incremental d n params x prev_k prev_v t) ! h ! p ! c
                = prev_v ! h ! p ! c)"
proof -
  define p0 where "p0 = nat (t mod int n)"
  have p0: "p0 < n" "int p0 = t mod int n"
    using assms(1) by (simp_all add: p0_def nat_less_iff)
  have "\<And>p. p < n \<Longrightarrow>
      new_k (masked_local_attention_1d_incremental d n params x prev_k prev_v t) ! h ! p ! c =
      (if int p = t mod int n then einsum_x_w d x (wk params) ! h ! c else prev_k ! h ! p ! c)"
    using assms(2,3) by (simp add: incremental_state where_window_nth)
  moreover have "\<And>p. p < n \<Longrightarrow>
      new_v (masked_local_attention_1d_incremental d n params x prev_k prev_v t) ! h ! p ! c =
      (if int p = t mod int n then einsum_x_w d x (wv params) ! h ! c else prev_v ! h ! p ! c)"
    using assms(2,3) by (simp add: incremental_state where_window_nth)
  ultimately show ?thesis
    using p0 by (intro exI[of _ p0]) auto
qed

theorem masked_local_attention_1d_incremental_frame_witness:
  "\<exists>p0<2. int p0 = 3 mod int 2 \<and>
     new_k (masked_local_attention_1d_incremental
              \<lparr>heads = 1, io_channels = 1, kv_channels = 1\<rparr> 2
              \<lparr>wq = [[[1]]], wk = [[[2]]], wv = [[[3]]], wo = [[[1]]]\<rparr>
              [5] [[[7], [8]]] [[[9], [10]]] 3) ! 0 ! p0 ! 0
       = einsum_x_w \<lparr>heads = 1, io_channels = 1, kv_channels = 1\<rparr> [5]
           (wk \<lparr>wq = [[[1]]], wk = [[[2]]], wv = [[[3]]], wo = [[[1]]]\<rparr>) ! 0 ! 0 \<and>
     new_v (masked_local_attention_1d_incremental
              \<lparr>heads = 1, io_channels = 1, kv_channels = 1\<rparr> 2
              \<lparr>wq = [[[1]]], wk = [[[2]]], wv = [[[3]]], wo = [[[1]]]\<rparr>
              [5] [[[7], [8]]] [[[9], [10]]] 3) ! 0 ! p0 ! 0
       = einsum_x_w \<lparr>heads = 1, io_channels = 1, kv_channels = 1\<rparr> [5]
           (wv \<lparr>wq = [[[1]]], wk = [[[2]]], wv = [[[3]]], wo = [[[1]]]\<rparr>) ! 0 ! 0 \<and>
     (\<forall>p<2. p \<noteq> p0 \<longrightarrow>
        new_k (masked_local_attention_1d_incremental
                 \<lparr>heads = 1, io_channels = 1, kv_channels = 1\<rparr> 2
                 \<lparr>wq = [[[1]]], wk = [[[2]]], wv = [[[3]]], wo = [[[1]]]\<rparr>
                 [5] [[[7], [8]]] [[[9], [10]]] 3) ! 0 ! p ! 0
          = [[[7], [8]]] ! 0 ! p ! 0 \<and>
        new_v (masked_local_attention_1d_incremental
                 \<lparr>heads = 1, io_channels = 1, kv_channels = 1\<rparr> 2
                 \<lparr>wq = [[[1]]], wk = [[[2]]], wv = [[[3]]], wo = [[[1]]]\<rparr>
                 [5] [[[7], [8]]] [[[9], [10]]] 3) ! 0 ! p ! 0
          = [[[9], [10]]] ! 0 ! p ! 0)"
  by (rule masked_local_attention_1d_incremental_frame) simp_all

lemma add_one_hot_nth:
  "h < heads d \<Longrightarrow> p < m \<Longrightarrow> c < kv_channels d \<Longrightarrow>
   add_one_hot d m prev a t ! h ! p ! c =
     prev ! h ! p ! c + a ! h ! c * (if int p = t then 1 else 0)"
  by (simp add: add_one_hot_def one_hot_def)

lemma self_attention_incremental_state:
  "new_k (multihead_self_attention_incremental d m params x prev_k prev_v t) =
     add_one_hot d m prev_k (einsum_x_w d x (wk params)) t"
  "new_v (multihead_self_attention_incremental d m params x prev_k prev_v t) =
     add_one_hot d m prev_v (einsum_x_w d x (wv params)) t"
  by (simp_all add: multihead_self_attention_incremental_def Let_def new_k_def new_v_def)

text \<open>
  Claim C10.  A decode step of \<^verbatim>\<open>multihead_self_attention_incremental\<close> adds the fresh
  projection, multiplied by the one-hot vector of the step number, to the previous state:
  every entry of the new keys is \<open>prev_k + k * one_hot\<close> and likewise for the values.  The
  slot of the step number therefore equals the projection only where the previous state
  is zero, a second write to the same slot adds to the first, and a step number outside
  the memory (no wrap-around is applied) leaves the state as it was.
\<close>

theorem multihead_self_attention_incremental_additive:
  assumes "h < heads d" and "p < m" and "c < kv_channels d"
  shows
    "new_k (multihead_self_attention_incremental d m params x prev_k prev_v t) ! h ! p ! c
       = prev_k ! h ! p ! c + einsum_x_w d x (wk params) ! h ! c * one_hot t m ! p \<and>
     new_v (multihead_self_attention_incremental d m params x prev_k prev_v t) ! h ! p ! c
       = prev_v ! h ! p ! c + einsum_x_w d x (wv params) ! h ! c * one_hot t m ! p \<and>
     one_hot t m ! p = (if int p = t then 1 else 0) \<and>
     (int p = t \<longrightarrow>
        (new_k (multihead_self_attention_incremental d m params x prev_k prev_v t) ! h ! p ! c
           = einsum_x_w d x (wk params) ! h ! c
         \<longleftrightarrow> prev_k ! h ! p ! c = 0)) \<and>
     (int p = t \<longrightarrow>
        new_k (multihead_self_attention_incremental d m params x'
                 (new_k (multihead_self_attention_incremental d m params x prev_k prev_v t))
                 (new_v (multihead_self_attention_incremental d m params x prev_k prev_v t)) t)
          ! h ! p ! c
        = prev_k ! h ! p ! c + einsum_x_w d x (wk params) ! h ! c
            + einsum_x_w d x' (wk params) ! h ! c) \<and>
     (t < 0 \<or> int m \<le> t \<longrightarrow>
        new_k (multihead_self_attention_incremental d m params x prev_k prev_v t) ! h ! p ! c
          = prev_k ! h ! p ! c \<and>
        new_v (multihead_self_attention_incremental d m params x prev_k prev_v t) ! h ! p ! c
          = prev_v ! h ! p ! c)"
  using assms by (auto simp add: self_attention_incremental_state add_one_hot_nth one_hot_def)

theorem multihead_self_attention_incremental_additive_witness:
  "new_k (multihead_self_attention_incremental
            \<lparr>heads = 1, io_channels = 1, kv_channels = 1\<rparr> 2
            \<lparr>wq = [[[1]]], wk = [[[2]]], wv = [[[3]]], wo = [[[1]]]\<rparr>
            [5] [[[7], [8]]] [[[9], [10]]] 1) ! 0 ! 1 ! 0 = 18"
proof -
  have "einsum_x_w \<lparr>heads = 1, io_channels = 1, kv_channels = 1\<rparr> [5]
          (wk \<lparr>wq = [[[1]]], wk = [[[2]]], wv = [[[3]]], wo = [[[1]]]\<rparr>) ! 0 ! 0 = 10"
    by (simp add: einsum_x_w_def)
  then show ?thesis
    using multihead_self_attention_incremental_additive
      [of 0 "\<lparr>heads = 1, io_channels = 1, kv_channels = 1\<rparr>" 1 2 0
          "\<lparr>wq = [[[1]]], wk = [[[2]]], wv = [[[3]]], wo = [[[1]]]\<rparr>"
          "[5]" "[[[7], [8]]]" "[[[9], [10]]]" 1 "[5]"]
    by simp
qed

subsection \<open>Facts about the attention kernel\<close>

lemma sum_list_upt_eq_sum: "(\<Sum>i\<leftarrow>[0..<n]. f i) = (\<Sum>i<n. f i)"
  by (simp add: sum_list_sum_nth atLeast0LessThan)

lemma qk_stddev_square:
  assumes "0 < io_channels d" and "0 < kv_channels d"
  shows "qk_stddev d * qk_stddev d = 1 / (real (io_channels d) * sqrt (real (kv_channels d)))"
proof -
  define a where "a = real (io_channels d)"
  define b where "b = real (kv_channels d)"
  have pos: "0 < a" "0 < b" using assms by (simp_all add: a_def b_def)
  have "qk_stddev d * qk_stddev d
      = (a powr (- 0.5) * a powr (- 0.5)) * (b powr (- 0.25) * b powr (- 0.25))"
    by (simp add: qk_stddev_def a_def b_def)
  also have "\<dots> = a powr (- 1) * b powr (- (1 / 2))"
    by (simp add: powr_add [symmetric])
  also have "\<dots> = 1 / (a * sqrt b)"
    using pos by (simp add: powr_minus powr_half_sqrt divide_simps)
  finally show ?thesis by (simp add: a_def b_def)
qed

text \<open>
  Claim C9.  The logit of \<^verbatim>\<open>dot_product_attention\<close> for memory position \<open>j\<close> is the plain
  sum of products of the query with key \<open>j\<close>, plus the bias when there is one; nothing
  divides by the square root of the key depth (a query and a key of \<open>depth_k\<close> ones have
  logit \<open>depth_k\<close>), and the output is the values weighted by the softmax of these logits.
  The scale sits in the initializer of the query and key projections: both use the
  standard deviation \<open>io_channels ^ (-1/2) * kv_channels ^ (-1/4)\<close>, whose square is
  \<open>1 / (io_channels * sqrt kv_channels)\<close>.
\<close>

theorem dot_product_attention_unscaled:
  assumes "j < length_kv" and "0 < io_channels d" and "0 < kv_channels d"
  shows
    "attention_logits length_kv depth_k q k None ! j = (\<Sum>c<depth_k. q ! c * k ! j ! c) \<and>
     attention_logits length_kv depth_k q k (Some bias) ! j
       = (\<Sum>c<depth_k. q ! c * k ! j ! c) + bias ! j \<and>
     dot_product_attention length_kv depth_k depth_v q k v m
       = einsum_weights_v length_kv depth_v (softmax (attention_logits length_kv depth_k q k m)) v \<and>
     attention_logits 1 depth_k (replicate depth_k 1) [replicate depth_k 1] None = [real depth_k] \<and>
     multihead_attention_stddevs d ! 0 = qk_stddev d \<and>
     multihead_attention_stddevs d ! 1 = qk_stddev d \<and>
     qk_stddev d = real (io_channels d) powr (- 0.5) * real (kv_channels d) powr (- 0.25) \<and>
     qk_stddev d * qk_stddev d = 1 / (real (io_channels d) * sqrt (real (kv_channels d)))"
proof -
  have "attention_logits length_kv depth_k q k None ! j = (\<Sum>c<depth_k. q ! c * k ! j ! c)"
    using assms(1) by (simp add: attention_logits_def einsum_q_k_def sum_list_upt_eq_sum)
  moreover have "attention_logits length_kv depth_k q k (Some bias) ! j
       = (\<Sum>c<depth_k. q ! c * k ! j ! c) + bias ! j"
    using assms(1) by (simp add: attention_logits_def einsum_q_k_def sum_list_upt_eq_sum)
  moreover have "dot_product_attention length_kv depth_k depth_v q k v m
       = einsum_weights_v length_kv depth_v (softmax (attention_logits length_kv depth_k q k m)) v"
    by (simp add: dot_product_attention_def Let_def)
  moreover have "attention_logits 1 depth_k (replicate depth_k 1) [replicate depth_k 1] None
       = [real depth_k]"
    by (simp add: attention_logits_def einsum_q_k_def sum_list_upt_eq_sum)
  moreover have "multihead_attention_stddevs d ! 0 = qk_stddev d"
    "multihead_attention_stddevs d ! 1 = qk_stddev d"
    by (simp_all add: multihead_attention_stddevs_def)
  moreover have "qk_stddev d = real (io_channels d) powr (- 0.5) * real (kv_channels d) powr (- 0.25)"
    by (simp add: qk_stddev_def)
  ultimately show ?thesis
    using qk_stddev_square [OF assms(2,3)] by (intro conjI)
qed

theorem dot_product_attention_unscaled_witness:
  "attention_logits 1 4 [1, 1, 1, 1] [[1, 2, 3, 4]] (Some [- 1000000000]) ! 0
     = - 999999990 \<and>
   qk_stddev \<lparr>heads = 1, io_channels = 4, kv_channels = 16\<rparr>
     * qk_stddev \<lparr>heads = 1, io_channels = 4, kv_channels = 16\<rparr> = 1 / 16"
proof -
  have s: "(\<Sum>c<4. [1, 1, 1, 1::real] ! c * [[1, 2, 3, 4]] ! 0 ! c) = 10"
    by (simp add: lessThan_nat_numeral lessThan_Suc)
  have r: "sqrt 16 = 4"
    using real_sqrt_abs [of 4] by simp
  have hyp: "(0::nat) < 1" "0 < io_channels \<lparr>heads = 1, io_channels = 4, kv_channels = 16\<rparr>"
    "0 < kv_channels \<lparr>heads = 1, io_channels = 4, kv_channels = 16\<rparr>"
    by simp_all
  note t = dot_product_attention_unscaled
      [OF hyp, of 4 "[1, 1, 1, 1]" "[[1, 2, 3, 4]]" "[- 1000000000]" 0 "[]" None]
  have "attention_logits 1 4 [1, 1, 1, 1] [[1, 2, 3, 4]] (Some [- 1000000000]) ! 0
      = - 999999990"
    using t [THEN conjunct2, THEN conjunct1] by (simp only: s) simp
  moreover have "qk_stddev \<lparr>heads = 1, io_channels = 4, kv_channels = 16\<rparr>
     * qk_stddev \<lparr>heads = 1, io_channels = 4, kv_channels = 16\<rparr> = 1 / 16"
    using t [THEN conjunct2, THEN conjunct2, THEN conjunct2, THEN conjunct2, THEN conjunct2,
             THEN conjunct2, THEN conjunct2]
    by (simp add: r)
  ultimately show ?thesis by (rule conjI)
qed


subsection \<open>Facts about the shape checks\<close>

lemma last_two_split:
  "take (length (bs @ [a, b]) - 2) (bs @ [a, b]) = bs"
  "drop (length (bs @ [a, b]) - 2) (bs @ [a, b]) = [a, b]"
  by simp_all

lemma unpack2_pair: "unpack2 [a, b] = Inr (a, b)"
  by (simp add: unpack2_def)

lemma mtf_Shape_distinct_names:
  "distinct (map dim_name dims) \<Longrightarrow> mtf_Shape dims = Inr dims"
  by (simp add: mtf_Shape_def distinct_map)

lemma multihead_attention_vars_ok:
  assumes "0 < dim_size hds" "0 < dim_size io" "0 < dim_size kv"
    and "distinct (map dim_name [Dimension ''qkvo'' 4, hds, io, kv])"
  shows "multihead_attention_vars hds io kv = Inr [Get_variable ''qkvo'', Unstack]"
  using assms(1,2,3) mtf_Shape_distinct_names [OF assms(4)]
  by (simp add: multihead_attention_vars_def multihead_attention_params_def Let_def)

lemma multihead_attention_some:
  assumes "multihead_attention_vars hds qc kv = Inr ops"
  shows "multihead_attention (qb @ [ql, qc]) (Some (mb @ [ml, mc])) hm kv hds dr
       = multihead_attention_checks ops qb ql qc (mb @ [ml, mc]) hm kv hds dr"
  unfolding multihead_attention_def last_two_split unpack2_pair Let_def
  by (simp add: assms)

lemma checks_mismatch:
  "mb \<noteq> qb \<Longrightarrow> multihead_attention_checks ops qb ql qc (mb @ [ml, mc]) hm kv hds dr
     = (ops, Inl (ValueError ''memory batch must equal query batch''))"
  "mb = qb \<Longrightarrow> mc \<noteq> qc \<Longrightarrow> multihead_attention_checks ops qb ql qc (mb @ [ml, mc]) hm kv hds dr
     = (ops, Inl (ValueError ''memory channels must equal query channels''))"
  unfolding multihead_attention_checks_def last_two_split unpack2_pair Let_def
  by simp_all

lemma checks_pass:
  "multihead_attention_checks ops qb ql qc (qb @ [ml, qc]) hm kv hds dr =
     (case mtf_Shape (qb @ [hds, ql, kv]) of
        Inl e \<Rightarrow> (ops, Inl e)
      | Inr q \<Rightarrow>
          (case mtf_Shape (qb @ [hds, ml, kv]) of
             Inl e \<Rightarrow> (ops @ [Einsum q], Inl e)
           | Inr k \<Rightarrow>
               (case dot_product_attention_graph q k k hm dr of
                  (attention_ops, Inl e) \<Rightarrow> (ops @ [Einsum q, Einsum k, Einsum k] @ attention_ops, Inl e)
                | (attention_ops, Inr o_shape) \<Rightarrow>
                    (case mtf_Shape (qb @ [ql, qc]) of
                       Inl e \<Rightarrow> (ops @ [Einsum q, Einsum k, Einsum k] @ attention_ops, Inl e)
                     | Inr y \<Rightarrow> (ops @ [Einsum q, Einsum k, Einsum k] @ attention_ops @ [Einsum y],
                                Inr y)))))"
  unfolding multihead_attention_checks_def last_two_split unpack2_pair Let_def
  by (simp split: sum.splits prod.splits)

lemma mtf_Shape_cases:
  "mtf_Shape dims = Inr dims \<or> mtf_Shape dims = Inl (ValueError ''Shape must not have repeated dimensions'')"
  by (simp add: mtf_Shape_def)

lemma mtf_Shape_Inr: "mtf_Shape dims = Inr s \<Longrightarrow> s = dims \<and> distinct dims"
  by (simp add: mtf_Shape_def split: if_splits)

lemma checks_success:
  assumes "distinct (map dim_name (qb @ [hds, ql, ml, qc, kv]))"
  shows "snd (multihead_attention_checks ops qb ql qc (qb @ [ml, qc]) hm kv hds dr)
       = Inr (qb @ [ql, qc])"
proof -
  have d: "distinct (map dim_name (qb @ [hds, ql, kv]))"
    "distinct (map dim_name (qb @ [hds, ml, kv]))"
    "distinct (map dim_name (qb @ [hds, ql, ml]))"
    "distinct (map dim_name (qb @ [ql, qc]))"
    using assms by auto
  have b: "butlast (qb @ [hds, ql, kv]) = qb @ [hds, ql]"
    by (simp add: butlast_append)
  have k: "(qb @ [hds, ml, kv]) ! (length (qb @ [hds, ml, kv]) - 2) = ml"
    by (simp add: nth_append)
  have l: "last (qb @ [hds, ml, kv]) = kv" by simp
  have g: "snd (dot_product_attention_graph (qb @ [hds, ql, kv]) (qb @ [hds, ml, kv])
                 (qb @ [hds, ml, kv]) hm dr) = Inr (qb @ [hds, ql, kv])"
    unfolding dot_product_attention_graph_def Let_def b k l
    using mtf_Shape_distinct_names [OF d(3)] mtf_Shape_distinct_names [OF d(1)]
    by simp
  obtain aops where g': "dot_product_attention_graph (qb @ [hds, ql, kv]) (qb @ [hds, ml, kv])
                 (qb @ [hds, ml, kv]) hm dr = (aops, Inr (qb @ [hds, ql, kv]))"
    using g by (cases "dot_product_attention_graph (qb @ [hds, ql, kv]) (qb @ [hds, ml, kv])
                 (qb @ [hds, ml, kv]) hm dr") simp
  show ?thesis
    unfolding checks_pass
    using mtf_Shape_distinct_names [OF d(1)] mtf_Shape_distinct_names [OF d(2)]
      mtf_Shape_distinct_names [OF d(4)] g'
    by simp
qed

lemma checks_repeated_length:
  "\<exists>msg. snd (multihead_attention_checks ops qb ql qc (qb @ [ql, qc]) hm kv hds dr)
       = Inl (ValueError msg)"
proof -
  have b: "butlast (qb @ [hds, ql, kv]) = qb @ [hds, ql]"
    by (simp add: butlast_append)
  have k: "(qb @ [hds, ql, kv]) ! (length (qb @ [hds, ql, kv]) - 2) = ql"
    by (simp add: nth_append)
  have nd: "\<not> distinct (qb @ [hds, ql] @ [ql])" by simp
  have g: "dot_product_attention_graph (qb @ [hds, ql, kv]) (qb @ [hds, ql, kv])
                 (qb @ [hds, ql, kv]) hm dr
      = ([], Inl (ValueError ''Shape must not have repeated dimensions''))"
    unfolding dot_product_attention_graph_def Let_def b k
    using nd by (simp add: mtf_Shape_def)
  show ?thesis
    unfolding checks_pass
    using mtf_Shape_cases [of "qb @ [hds, ql, kv]"] g
    by (auto dest: mtf_Shape_Inr split: sum.splits prod.splits)
qed


lemma graph_result:
  "snd (dot_product_attention_graph q k v hm dr) = Inr (butlast q @ [last v]) \<or>
   snd (dot_product_attention_graph q k v hm dr)
     = Inl (ValueError ''Shape must not have repeated dimensions'')"
  unfolding dot_product_attention_graph_def Let_def
  using mtf_Shape_cases [of "butlast q @ [k ! (length k - 2)]"]
    mtf_Shape_cases [of "butlast q @ [last v]"]
  by (auto split: sum.splits)

lemma checks_pass_result:
  "snd (multihead_attention_checks ops qb ql qc (qb @ [ml, qc]) hm kv hds dr) = Inr (qb @ [ql, qc]) \<or>
   snd (multihead_attention_checks ops qb ql qc (qb @ [ml, qc]) hm kv hds dr)
     = Inl (ValueError ''Shape must not have repeated dimensions'')"
proof -
  have g: "\<And>q k. snd (dot_product_attention_graph q k k hm dr) = Inr (butlast q @ [last k]) \<or>
      snd (dot_product_attention_graph q k k hm dr)
        = Inl (ValueError ''Shape must not have repeated dimensions'')"
    by (rule graph_result)
  show ?thesis
    unfolding checks_pass
    using mtf_Shape_cases [of "qb @ [hds, ql, kv]"] mtf_Shape_cases [of "qb @ [hds, ml, kv]"]
      mtf_Shape_cases [of "qb @ [ql, qc]"]
      g [of "qb @ [hds, ql, kv]" "qb @ [hds, ml, kv]"]
    by (auto split: sum.splits prod.splits)
qed

lemma multihead_attention_none:
  assumes "multihead_attention_vars hds qc kv = Inr ops"
    and "distinct (map dim_name (qb @ [hds, ql, Dimension ''memory_length'' (dim_size ql), qc, kv]))"
  shows "snd (multihead_attention (qb @ [ql, qc]) None hm kv hds dr) = Inr (qb @ [ql, qc])"
proof -
  let ?ml = "Dimension ''memory_length'' (dim_size ql)"
  have fresh: "\<forall>d \<in> set qb. dim_name d \<noteq> dim_name ql" "dim_name qc \<noteq> dim_name ql"
    using assms(2) by (auto simp: image_iff)
  have m: "map (\<lambda>d. if dim_name d = dim_name ql then Dimension ''memory_length'' (dim_size d) else d)
             (qb @ [ql, qc]) = qb @ [?ml, qc]"
    using fresh by (simp add: map_idI)
  have "distinct (map dim_name (qb @ [?ml, qc]))" using assms(2) by auto
  then have r: "rename_length_to_memory_length (qb @ [ql, qc]) (dim_name ql) = Inr (qb @ [?ml, qc])"
    unfolding rename_length_to_memory_length_def rename_dimension_def m
    by (rule mtf_Shape_distinct_names)
  have "multihead_attention (qb @ [ql, qc]) None hm kv hds dr
      = multihead_attention_checks (ops @ [Rename_dimension]) qb ql qc (qb @ [?ml, qc]) hm kv hds dr"
    unfolding multihead_attention_def last_two_split unpack2_pair Let_def
    by (simp add: assms(1) r)
  then show ?thesis
    using checks_success [OF assms(2)] by simp
qed

text \<open>
  Claim C8.  Stated as "a \<^verbatim>\<open>ValueError\<close> is raised exactly when the batch dimensions or
  the channel dimensions differ, and no error on matching inputs", the claim fails.  A
  memory whose shape equals the shape of the query matches in both respects, yet the
  logits shape then holds the length dimension twice and \<^verbatim>\<open>dot_product_attention\<close> raises
  \<^verbatim>\<open>ValueError\<close>.  And with a channel dimension of size zero the parameters raise
  \<^verbatim>\<open>ZeroDivisionError\<close> before the checks are reached, although the batch dimensions
  differ.
\<close>

theorem multihead_attention_value_error_counterexample:
  "take 1 [Dimension ''batch'' 2, Dimension ''length'' 3, Dimension ''io'' 4]
     = take 1 [Dimension ''batch'' 2, Dimension ''length'' 3, Dimension ''io'' 4] \<and>
   snd (multihead_attention
          [Dimension ''batch'' 2, Dimension ''length'' 3, Dimension ''io'' 4]
          (Some [Dimension ''batch'' 2, Dimension ''length'' 3, Dimension ''io'' 4])
          True (Dimension ''kv'' 8) (Dimension ''heads'' 2) 0)
     = Inl (ValueError ''Shape must not have repeated dimensions'') \<and>
   [Dimension ''batch'' 7] \<noteq> [Dimension ''batch'' 2] \<and>
   snd (multihead_attention
          [Dimension ''batch'' 2, Dimension ''length'' 3, Dimension ''io'' 0]
          (Some [Dimension ''batch'' 7, Dimension ''memory_length'' 5, Dimension ''io'' 0])
          True (Dimension ''kv'' 8) (Dimension ''heads'' 2) 0)
     = Inl ZeroDivisionError"
  by (simp add: multihead_attention_def multihead_attention_vars_def
      multihead_attention_params_def multihead_attention_checks_def unpack2_def
      dot_product_attention_graph_def mtf_Shape_def Let_def)

text \<open>
  Claim C8, amended.  Let the dimensions \<open>heads\<close>, \<open>io_channels\<close> and \<open>kv_channels\<close> have
  positive size and names that differ from each other and from \<open>qkvo\<close>.  For a query of
  shape \<open>batch_dims @ [query_length, io_channels]\<close> and a memory of shape
  \<open>memory_batch_dims @ [memory_length, memory_channels]\<close>, \<^verbatim>\<open>multihead_attention\<close> raises
  "memory batch must equal query batch" exactly when the batch dimensions differ, and
  "memory channels must equal query channels" exactly when the batch dimensions agree
  and the channel dimensions differ.  In both cases the graph holds only the stacked
  variable and its unstacking: no einsum and no softmax has been built.  On matching
  inputs no error is raised when the names of all dimensions involved are distinct, and
  the result has the shape of the query; so it has when no memory is given.  On matching
  inputs whose memory length dimension is the query length dimension, the construction
  of the logits shape raises \<^verbatim>\<open>ValueError\<close>.
\<close>

theorem multihead_attention_value_error:
  assumes "0 < dim_size hds" and "0 < dim_size qc" and "0 < dim_size kv"
    and "distinct (map dim_name [Dimension ''qkvo'' 4, hds, qc, kv])"
  shows
    "((snd (multihead_attention (qb @ [ql, qc]) (Some (mb @ [ml, mc])) hm kv hds dr)
         = Inl (ValueError ''memory batch must equal query batch''))
        \<longleftrightarrow> mb \<noteq> qb) \<and>
     ((snd (multihead_attention (qb @ [ql, qc]) (Some (mb @ [ml, mc])) hm kv hds dr)
         = Inl (ValueError ''memory channels must equal query channels''))
        \<longleftrightarrow> (mb = qb \<and> mc \<noteq> qc)) \<and>
     (mb \<noteq> qb \<or> mc \<noteq> qc \<longrightarrow>
        fst (multihead_attention (qb @ [ql, qc]) (Some (mb @ [ml, mc])) hm kv hds dr)
          = [Get_variable ''qkvo'', Unstack]) \<and>
     (mb = qb \<and> mc = qc \<and> distinct (map dim_name (qb @ [hds, ql, ml, qc, kv])) \<longrightarrow>
        snd (multihead_attention (qb @ [ql, qc]) (Some (mb @ [ml, mc])) hm kv hds dr)
          = Inr (qb @ [ql, qc])) \<and>
     (mb = qb \<and> mc = qc \<and> ml = ql \<longrightarrow>
        snd (multihead_attention (qb @ [ql, qc]) (Some (mb @ [ml, mc])) hm kv hds dr)
          = Inl (ValueError ''Shape must not have repeated dimensions'')) \<and>
     (distinct (map dim_name
                 (qb @ [hds, ql, Dimension ''memory_length'' (dim_size ql), qc, kv])) \<longrightarrow>
        snd (multihead_attention (qb @ [ql, qc]) None hm kv hds dr) = Inr (qb @ [ql, qc]))"
proof -
  have v: "multihead_attention_vars hds qc kv = Inr [Get_variable ''qkvo'', Unstack]"
    using assms by (rule multihead_attention_vars_ok)
  let ?ops = "[Get_variable ''qkvo'', Unstack]"
  let ?R = "multihead_attention (qb @ [ql, qc]) (Some (mb @ [ml, mc])) hm kv hds dr"
  have R: "?R = multihead_attention_checks ?ops qb ql qc (mb @ [ml, mc]) hm kv hds dr"
    using v by (rule multihead_attention_some)
  have pass: "mb = qb \<Longrightarrow> mc = qc \<Longrightarrow>
      snd ?R = Inr (qb @ [ql, qc]) \<or>
      snd ?R = Inl (ValueError ''Shape must not have repeated dimensions'')"
    unfolding R using checks_pass_result [of ?ops qb ql qc ml hm kv hds dr] by simp
  have c1: "(snd ?R = Inl (ValueError ''memory batch must equal query batch'')) \<longleftrightarrow> mb \<noteq> qb"
  proof (cases "mb = qb")
    case False
    then show ?thesis unfolding R by (simp add: checks_mismatch)
  next
    case True
    show ?thesis
    proof (cases "mc = qc")
      case False
      then show ?thesis unfolding R using True by (simp add: checks_mismatch)
    next
      case mc: True
      then show ?thesis using pass [OF True mc] True by auto
    qed
  qed
  have c2: "(snd ?R = Inl (ValueError ''memory channels must equal query channels''))
      \<longleftrightarrow> (mb = qb \<and> mc \<noteq> qc)"
  proof (cases "mb = qb")
    case False
    then show ?thesis unfolding R by (simp add: checks_mismatch)
  next
    case True
    show ?thesis
    proof (cases "mc = qc")
      case False
      then show ?thesis unfolding R using True by (simp add: checks_mismatch)
    next
      case mc: True
      then show ?thesis using pass [OF True mc] True by auto
    qed
  qed
  have c3: "mb \<noteq> qb \<or> mc \<noteq> qc \<longrightarrow> fst ?R = ?ops"
    unfolding R by (cases "mb = qb") (auto simp: checks_mismatch)
  have c4: "mb = qb \<and> mc = qc \<and> distinct (map dim_name (qb @ [hds, ql, ml, qc, kv])) \<longrightarrow>
      snd ?R = Inr (qb @ [ql, qc])"
    unfolding R using checks_success [of qb hds ql ml qc kv ?ops hm dr] by auto
  have c5: "mb = qb \<and> mc = qc \<and> ml = ql \<longrightarrow>
      snd ?R = Inl (ValueError ''Shape must not have repeated dimensions'')"
  proof (intro impI)
    assume h: "mb = qb \<and> mc = qc \<and> ml = ql"
    then obtain msg where "snd ?R = Inl (ValueError msg)"
      unfolding R using checks_repeated_length [of ?ops qb ql qc hm kv hds dr] by auto
    then show "snd ?R = Inl (ValueError ''Shape must not have repeated dimensions'')"
      using pass h by auto
  qed
  have c6: "distinct (map dim_name
                 (qb @ [hds, ql, Dimension ''memory_length'' (dim_size ql), qc, kv])) \<longrightarrow>
        snd (multihead_attention (qb @ [ql, qc]) None hm kv hds dr) = Inr (qb @ [ql, qc])"
    using multihead_attention_none [OF v] by blast
  show ?thesis
    using c1 c2 c3 c4 c5 c6 by (intro conjI)
qed

theorem multihead_attention_value_error_witness:
  "snd (multihead_attention
          [Dimension ''batch'' 2, Dimension ''length'' 3, Dimension ''io'' 4]
          (Some [Dimension ''batch'' 2, Dimension ''memory_length'' 5, Dimension ''io'' 4])
          True (Dimension ''kv'' 8) (Dimension ''heads'' 2) 0)
     = Inr [Dimension ''batch'' 2, Dimension ''length'' 3, Dimension ''io'' 4] \<and>
   snd (multihead_attention
          [Dimension ''batch'' 2, Dimension ''length'' 3, Dimension ''io'' 4]
          (Some [Dimension ''batch'' 7, Dimension ''memory_length'' 5, Dimension ''io'' 4])
          True (Dimension ''kv'' 8) (Dimension ''heads'' 2) 0)
     = Inl (ValueError ''memory batch must equal query batch'') \<and>
   snd (multihead_attention
          [Dimension ''batch'' 2, Dimension ''length'' 3, Dimension ''io'' 4] None
          True (Dimension ''kv'' 8) (Dimension ''heads'' 2) 0)
     = Inr [Dimension ''batch'' 2, Dimension ''length'' 3, Dimension ''io'' 4]"
proof -
  have h: "0 < dim_size (Dimension ''heads'' 2)" "0 < dim_size (Dimension ''io'' 4)"
    "0 < dim_size (Dimension ''kv'' 8)"
    "distinct (map dim_name [Dimension ''qkvo'' 4, Dimension ''heads'' 2, Dimension ''io'' 4,
       Dimension ''kv'' 8])"
    by simp_all
  note t1 = multihead_attention_value_error
      [OF h, of "[Dimension ''batch'' 2]" "Dimension ''length'' 3"
          "[Dimension ''batch'' 2]" "Dimension ''memory_length'' 5" "Dimension ''io'' 4" True 0]
  note t2 = multihead_attention_value_error
      [OF h, of "[Dimension ''batch'' 2]" "Dimension ''length'' 3"
          "[Dimension ''batch'' 7]" "Dimension ''memory_length'' 5" "Dimension ''io'' 4" True 0]
  show ?thesis
    using t1 t2 by simp
qed

subsection \<open>Facts about the relative position buckets\<close>


lemma ln2_le_one: "ln (2::real) \<le> 1"
  using ln_le_minus_one [of "2::real"] by simp














lemma ln_16_4: "ln (16::real) = 2 * ln 4"
proof -
  have "ln ((4::real) ^ 2) = 2 * ln 4" by (simp only: ln_realpow)
  thus ?thesis by simp
qed

lemma ln_quarter: "ln (1 / 4 :: real) = - ln 4"
  by (simp add: ln_div)

lemma ln4_pos: "0 < ln (4::real)"
  by simp

lemma log_ratio_256: "ln (16::real) * 16 / ln (1 / 4) = - 32"
  unfolding ln_16_4 ln_quarter using ln4_pos by simp

lemma bucket_at_int32_min:
  "relative_position_bucket oor (- 2147483648) True 32 128 = Inr (- 2147483632)"
proof -
  have "ln (128 / 8 :: real) \<noteq> 0" by simp
  thus ?thesis by (simp add: relative_position_bucket_def Let_def)
qed

lemma bucket_short_max_distance:
  "relative_position_bucket oor (- 256) False 32 4 = Inr (- 16)"
  "relative_position_bucket oor (- 16) False 32 4 = Inr 16"
proof -
  have nz: "ln (4 / 16 :: real) \<noteq> 0" by simp
  have q: "ln (256 / 16 :: real) / ln (4 / 16) * 16 = - 32"
    using log_ratio_256 by simp
  have c: "to_int32 oor (- 32) = - 32" by (simp add: to_int32_def)
  show "relative_position_bucket oor (- 256) False 32 4 = Inr (- 16)"
    using nz by (simp add: relative_position_bucket_def Let_def q [simplified] c)
  show "relative_position_bucket oor (- 16) False 32 4 = Inr 16"
    using nz by (simp add: relative_position_bucket_def Let_def to_int32_def)
qed


text \<open>
  Claim C6.  The claim, like the documentation of the routine (``values in the range
  \<open>[0, num_buckets)\<close>''), places every returned bucket in \<open>[0, num_buckets)\<close>, for every
  relative position, every \<open>num_buckets \<ge> 2\<close>, every \<open>max_distance > 0\<close> and both modes.
  The code does not: whatever the cast does outside the range of \<open>int32\<close>,

  \<^item> at the relative position \<open>- 2\<^sup>3\<^sup>1\<close> with the default parameters (bidirectional, 32
    buckets, \<open>max_distance = 128\<close>) the negation and the absolute value wrap around, \<open>n\<close>
    stays \<open>- 2\<^sup>3\<^sup>1\<close> against the comment ``now n is in the range [0, inf)'', and the
    result is \<open>16 - 2\<^sup>3\<^sup>1\<close>;
  \<^item> at the relative position \<open>- 256\<close>, unidirectional, with 32 buckets and
    \<open>max_distance = 4\<close>, the logarithm of \<open>max_distance / max_exact\<close> is negative and the
    result is \<open>- 16\<close>;
  \<^item> with 2 buckets in bidirectional mode \<^verbatim>\<open>max_exact\<close> is \<open>0\<close> and the division
    \<^verbatim>\<open>max_distance / max_exact\<close> raises, so that no bucket is returned at all.
\<close>

theorem relative_position_bucket_leaves_range:
  "relative_position_bucket out_of_range (- 2147483648) True 32 128 = Inr (- 2147483632)
   \<and> sint (- 2147483632 :: int32) = - 2147483632
   \<and> relative_position_bucket out_of_range (- 256) False 32 4 = Inr (- 16)
   \<and> sint (- 16 :: int32) = - 16
   \<and> relative_position_bucket out_of_range 0 True 2 128 = Inl ZeroDivisionError"
proof -
  have "relative_position_bucket out_of_range 0 True 2 128 = Inl ZeroDivisionError"
    by (simp add: relative_position_bucket_def)
  moreover have "sint (- 2147483632 :: int32) = - 2147483632" by simp
  moreover have "sint (- 16 :: int32) = - 16" by simp
  ultimately show ?thesis
    using bucket_at_int32_min [of out_of_range] bucket_short_max_distance(1) [of out_of_range]
    by simp
qed





subsection \<open>Facts about the step-by-step run and the batch routine\<close>

lemma mod_succ_int:
  fixes a n :: int
  assumes "0 < n" "(a + 1) mod n \<noteq> 0"
  shows "(a + 1) mod n = a mod n + 1"
proof -
  have r: "0 \<le> a mod n" "a mod n < n" using assms(1) by simp_all
  have e: "(a + 1) mod n = (a mod n + 1) mod n" by (simp add: mod_add_left_eq)
  show ?thesis
  proof (cases "a mod n + 1 < n")
    case True
    have "(a mod n + 1) mod n = a mod n + 1"
      by (rule mod_pos_pos_trivial) (use r True in linarith)+
    with e show ?thesis by (rule trans)
  next
    case False
    then have "a mod n + 1 = n" using r by linarith
    then have "(a mod n + 1) mod n = 0" by (simp only: mod_self)
    with e assms(2) show ?thesis by (simp only:)
  qed
qed

lemma slot_new:
  fixes t s n :: int
  assumes "s = (t + 1) mod n"
  shows "(t + 1 - s) mod n = 0"
  using assms by (simp add: mod_diff_right_eq)

lemma slot_same:
  fixes t s n :: int
  assumes "0 < n" "0 \<le> s" "s < n" "s \<noteq> (t + 1) mod n"
  shows "(t + 1) - (t + 1 - s) mod n = t - (t - s) mod n"
proof -
  have "(t + 1 - s) mod n \<noteq> 0"
  proof
    assume "(t + 1 - s) mod n = 0"
    then have "n dvd (t + 1 - s)" by (simp add: mod_eq_0_iff_dvd)
    then have "(t + 1) mod n = s mod n" by (simp add: mod_eq_dvd_iff)
    then show False using assms by simp
  qed
  moreover have eq: "t + 1 - s = t - s + 1" by simp
  ultimately have "(t - s + 1) mod n \<noteq> 0" by simp
  then have "(t - s + 1) mod n = (t - s) mod n + 1"
    using assms(1) by (intro mod_succ_int)
  then have "(t + 1 - s) mod n = (t - s) mod n + 1" by (simp only: eq)
  then show ?thesis by linarith
qed

lemma slot_inj:
  fixes t :: int
  assumes "s < n" "s' < n" "(t - int s) mod int n = (t - int s') mod int n"
  shows "s = s'"
proof -
  have "int n dvd (t - int s) - (t - int s')"
    using assms(3) by (simp only: mod_eq_dvd_iff)
  then have d: "int n dvd int s' - int s" by simp
  show ?thesis
  proof (rule ccontr)
    assume ne: "s \<noteq> s'"
    show False
    proof (cases "s < s'")
      case True
      then have "0 < int s' - int s" "int s' - int s < int n" using assms by simp_all
      then show False using d zdvd_not_zless by blast
    next
      case False
      then have "0 < int s - int s'" "int s - int s' < int n" using assms ne by simp_all
      moreover have "int n dvd int s - int s'" using d by (simp add: dvd_diff_commute)
      ultimately show False using zdvd_not_zless by blast
    qed
  qed
qed

lemma proj_row_length: "h < heads d \<Longrightarrow> length (proj_row d w x h g) = kv_channels d"
  by (simp add: proj_row_def einsum_x_w_def)

lemma map_nth_upt: "length r = m \<Longrightarrow> map (\<lambda>c. r ! c) [0..<m] = r"
  by (auto simp: list_eq_iff_nth_eq)

lemma where_window_row:
  "h < heads d \<Longrightarrow> s < n \<Longrightarrow>
   where_window d n cond a b ! h ! s
     = map (\<lambda>c. if cond ! s then a ! h ! c else b ! h ! s ! c) [0..<kv_channels d]"
  by (simp add: where_window_def)

lemma where_window_row_eq:
  assumes "h < heads d" "s < n" "length cond = n"
    "length (a ! h) = kv_channels d" "length (b ! h ! s) = kv_channels d"
  shows "where_window d n cond a b ! h ! s = (if cond ! s then a ! h else b ! h ! s)"
  using assms by (simp add: where_window_row map_nth_upt)

lemma einsum_x_w_row_length: "h < heads d \<Longrightarrow> length (einsum_x_w d x w ! h) = kv_channels d"
  by (simp add: einsum_x_w_def)

lemma zero_state_row: "h < heads d \<Longrightarrow> s < n \<Longrightarrow> zero_state d n ! h ! s = replicate (kv_channels d) 0"
  by (simp add: zero_state_def)

lemma step_rows:
  assumes "h < heads d" "s < n" "length (pk ! h ! s) = kv_channels d"
    "length (pv ! h ! s) = kv_channels d"
  shows "new_k (masked_local_attention_1d_incremental d n params xr pk pv t) ! h ! s
           = (if int s = t mod int n then einsum_x_w d xr (wk params) ! h else pk ! h ! s)"
    and "new_v (masked_local_attention_1d_incremental d n params xr pk pv t) ! h ! s
           = (if int s = t mod int n then einsum_x_w d xr (wv params) ! h else pv ! h ! s)"
  using assms
  by (simp_all add: incremental_state where_window_row_eq einsum_x_w_row_length)

lemma incremental_rows:
  assumes "0 < n" "h < heads d" "s < n"
  shows "new_k (incremental_at d n params x t) ! h ! s
           = proj_row d (wk params) x h (int t - (int t - int s) mod int n) \<and>
         new_v (incremental_at d n params x t) ! h ! s
           = proj_row d (wv params) x h (int t - (int t - int s) mod int n)"
proof (induction t)
  case 0
  have z: "length (zero_state d n ! h ! s) = kv_channels d"
    using assms by (simp add: zero_state_row)
  show ?case
  proof (cases "s = 0")
    case True
    then show ?thesis
      using assms z by (simp add: step_rows proj_row_def)
  next
    case False
    then have "(- int s) mod int n = int n - int s"
      using assms(3) by (simp add: zmod_zminus1_eq_if)
    then have neg: "int 0 - (int 0 - int s) mod int n < 0" using assms(3) by simp
    have ne: "int s \<noteq> 0 mod int n" using False by simp
    have "new_k (incremental_at d n params x 0) ! h ! s = replicate (kv_channels d) 0"
      "new_v (incremental_at d n params x 0) ! h ! s = replicate (kv_channels d) 0"
      using assms z ne by (simp_all add: step_rows zero_state_row)
    then show ?thesis
      using neg by (simp only: proj_row_def if_True)
  qed
next
  case (Suc t)
  let ?r = "incremental_at d n params x t"
  have len: "length (new_k ?r ! h ! s) = kv_channels d" "length (new_v ?r ! h ! s) = kv_channels d"
    using Suc assms(2) by (simp_all add: proj_row_length)
  have step: "incremental_at d n params x (Suc t)
      = masked_local_attention_1d_incremental d n params (x ! Suc t) (new_k ?r) (new_v ?r)
          (int t + 1)"
    by (simp add: Let_def add.commute)
  have rows:
    "new_k (incremental_at d n params x (Suc t)) ! h ! s
       = (if int s = (int t + 1) mod int n then einsum_x_w d (x ! Suc t) (wk params) ! h
          else new_k ?r ! h ! s)"
    "new_v (incremental_at d n params x (Suc t)) ! h ! s
       = (if int s = (int t + 1) mod int n then einsum_x_w d (x ! Suc t) (wv params) ! h
          else new_v ?r ! h ! s)"
    unfolding step using assms(2,3) len by (rule step_rows)+
  have suc: "int (Suc t) = int t + 1" by simp
  show ?case
  proof (cases "int s = (int t + 1) mod int n")
    case True
    then have "(int t + 1 - int s) mod int n = 0" by (rule slot_new)
    then have g: "int (Suc t) - (int (Suc t) - int s) mod int n = int (Suc t)"
      unfolding suc by simp
    have "\<not> int (Suc t) < 0" by simp
    then have "proj_row d w x h (int (Suc t)) = einsum_x_w d (x ! Suc t) w ! h" for w
      unfolding proj_row_def by (simp only: if_False nat_int)
    then show ?thesis
      unfolding g rows using True by simp
  next
    case False
    have "int t + 1 - (int t + 1 - int s) mod int n = int t - (int t - int s) mod int n"
      using assms(1,3) False by (intro slot_same) simp_all
    then have same: "int (Suc t) - (int (Suc t) - int s) mod int n
        = int t - (int t - int s) mod int n"
      unfolding suc .
    show ?thesis
      unfolding same rows using False Suc by simp
  qed
qed


lemma halo_row:
  assumes "0 < B" "nb * B = L" "h < heads d" "b < nb" "j < W + B"
  shows "left_halo_exchange d nb B W (reshape_blocks d nb B (einsum_xs_w d L x w)) ! h ! b ! j
           = proj_row d w x h (int (b * B) + int j - int W)"
proof (cases "int (b * B) + int j - int W < 0")
  case True
  then show ?thesis
    using assms by (simp add: left_halo_exchange_def proj_row_def Let_def)
next
  case False
  define g where "g = nat (int (b * B) + int j - int W)"
  have g: "int g = int (b * B) + int j - int W" using False by (simp add: g_def)
  have "Suc b * B \<le> nb * B"
    using assms(4) by (intro mult_le_mono1) simp
  then have "b * B + B \<le> nb * B" by simp
  then have gL: "g < L" using g assms(2,5) by linarith
  then have gd: "g div B < nb" using assms(2)
    by (intro less_mult_imp_div_less) simp
  have gm: "g mod B < B" using assms(1) by simp
  have "reshape_blocks d nb B (einsum_xs_w d L x w) ! h ! (g div B) ! (g mod B)
      = einsum_xs_w d L x w ! h ! (g div B * B + g mod B)"
    using assms(3) gd gm by (simp add: reshape_blocks_def)
  also have "\<dots> = einsum_xs_w d L x w ! h ! g" by simp
  also have "\<dots> = einsum_x_w d (x ! g) w ! h"
    using assms(3) gL by (simp add: einsum_xs_w_def einsum_x_w_def)
  finally have r: "reshape_blocks d nb B (einsum_xs_w d L x w) ! h ! (g div B) ! (g mod B)
      = einsum_x_w d (x ! g) w ! h" .
  have "left_halo_exchange d nb B W (reshape_blocks d nb B (einsum_xs_w d L x w)) ! h ! b ! j
      = reshape_blocks d nb B (einsum_xs_w d L x w) ! h ! (g div B) ! (g mod B)"
    using assms(3,4,5) False by (simp add: left_halo_exchange_def Let_def g_def)
  then show ?thesis
    using False r by (simp add: proj_row_def g_def)
qed

lemma visible_iff:
  assumes "i < B" "j < B + B"
  shows "(local_attention_mask B B ! i ! j = 0) = (i < j \<and> j \<le> i + B)"
  using local_attention_mask_nth [OF assms] by auto

lemma window_positions:
  assumes "0 < n"
  shows "image_mset (\<lambda>s. int t - (int t - int s) mod int n) (mset [0..<n])
           = mset_set {int t - int n + 1..int t}"
proof -
  let ?f = "\<lambda>s. int t - (int t - int s) mod int n"
  have inj: "inj_on ?f {0..<n}"
  proof (rule inj_onI)
    fix s s' assume "s \<in> {0..<n}" "s' \<in> {0..<n}" "?f s = ?f s'"
    then show "s = s'" using slot_inj [of s n s' "int t"] by simp
  qed
  have img: "?f ` {0..<n} = {int t - int n + 1..int t}"
  proof (rule card_subset_eq)
    show "finite {int t - int n + 1..int t}" by simp
    show "?f ` {0..<n} \<subseteq> {int t - int n + 1..int t}"
    proof
      fix g assume "g \<in> ?f ` {0..<n}"
      then obtain s where "g = ?f s" by blast
      moreover have "0 \<le> (int t - int s) mod int n" "(int t - int s) mod int n < int n"
        using assms by simp_all
      ultimately show "g \<in> {int t - int n + 1..int t}" by simp
    qed
    show "card (?f ` {0..<n}) = card {int t - int n + 1..int t}"
      using inj by (simp add: card_image)
  qed
  have "image_mset ?f (mset [0..<n]) = image_mset ?f (mset_set {0..<n})"
    by (simp only: mset_upt)
  also have "\<dots> = mset_set (?f ` {0..<n})"
    using inj by (rule image_mset_mset_set)
  finally show ?thesis by (simp only: img)
qed

lemma visible_positions:
  assumes "i < B"
  shows "image_mset (\<lambda>j. int (b * B) + int j - int B)
           (filter_mset (\<lambda>j. i < j \<and> j \<le> i + B) (mset [0..<B + B]))
         = mset_set {int (b * B + i) - int B + 1..int (b * B + i)}"
proof -
  let ?f = "\<lambda>j. int (b * B) + int j - int B"
  have inj: "inj_on ?f {i + 1..i + B}" by (rule inj_onI) simp
  have set: "{j \<in> {0..<B + B}. i < j \<and> j \<le> i + B} = {i + 1..i + B}"
    using assms by auto
  have img: "?f ` {i + 1..i + B} = {int (b * B + i) - int B + 1..int (b * B + i)}"
  proof (rule card_subset_eq)
    show "finite {int (b * B + i) - int B + 1..int (b * B + i)}" by simp
    show "?f ` {i + 1..i + B} \<subseteq> {int (b * B + i) - int B + 1..int (b * B + i)}" by auto
    show "card (?f ` {i + 1..i + B}) = card {int (b * B + i) - int B + 1..int (b * B + i)}"
      using inj by (simp add: card_image)
  qed
  have "filter_mset (\<lambda>j. i < j \<and> j \<le> i + B) (mset [0..<B + B])
      = filter_mset (\<lambda>j. i < j \<and> j \<le> i + B) (mset_set {0..<B + B})"
    by (simp only: mset_upt)
  also have "\<dots> = mset_set {j \<in> {0..<B + B}. i < j \<and> j \<le> i + B}"
    by (rule filter_mset_mset_set) simp
  finally have "filter_mset (\<lambda>j. i < j \<and> j \<le> i + B) (mset [0..<B + B]) = mset_set {i + 1..i + B}"
    by (simp only: set)
  then have "image_mset ?f (filter_mset (\<lambda>j. i < j \<and> j \<le> i + B) (mset [0..<B + B]))
      = image_mset ?f (mset_set {i + 1..i + B})" by (simp only:)
  also have "\<dots> = mset_set (?f ` {i + 1..i + B})"
    using inj by (rule image_mset_mset_set)
  finally show ?thesis by (simp only: img)
qed

lemma zip_nth_map:
  "length xs = n \<Longrightarrow> length ys = n \<Longrightarrow> zip xs ys = map (\<lambda>s. (xs ! s, ys ! s)) [0..<n]"
  by (auto simp: list_eq_iff_nth_eq)

lemma sum_list_mset_cong:
  fixes f :: "'a \<Rightarrow> real"
  assumes "mset xs = mset ys"
  shows "sum_list (map f xs) = sum_list (map f ys)"
proof -
  have "sum_list (map f xs) = sum_mset (image_mset f (mset xs))"
    by (simp add: sum_mset_sum_list [symmetric])
  also have "\<dots> = sum_mset (image_mset f (mset ys))" by (simp only: assms)
  also have "\<dots> = sum_list (map f ys)" by (simp add: sum_mset_sum_list [symmetric])
  finally show ?thesis .
qed

lemma step_output:
  "output_y (masked_local_attention_1d_incremental d n params xr pk pv t)
     = einsum_o_wo d
         (map (\<lambda>h. dot_product_attention n (kv_channels d) (kv_channels d)
                     (einsum_x_w d xr (wq params) ! h)
                     (new_k (masked_local_attention_1d_incremental d n params xr pk pv t) ! h)
                     (new_v (masked_local_attention_1d_incremental d n params xr pk pv t) ! h)
                     None)
            [0..<heads d])
         (wo params)"
  by (simp add: masked_local_attention_1d_incremental_def Let_def output_y_def new_k_def new_v_def)

lemma incremental_at_step:
  "\<exists>pk pv. incremental_at d n params x t
     = masked_local_attention_1d_incremental d n params (x ! t) pk pv (int t)"
  by (cases t) (auto simp: Let_def simp del: of_nat_Suc)

lemma step_state_length:
  assumes "h < heads d"
  shows "length (new_k (masked_local_attention_1d_incremental d n params xr pk pv t) ! h) = n"
    and "length (new_v (masked_local_attention_1d_incremental d n params xr pk pv t) ! h) = n"
  using assms by (simp_all add: incremental_state where_window_def)

lemma incremental_at_output:
  "output_y (incremental_at d n params x t)
     = einsum_o_wo d
         (map (\<lambda>h. dot_product_attention n (kv_channels d) (kv_channels d)
                     (einsum_x_w d (x ! t) (wq params) ! h)
                     (new_k (incremental_at d n params x t) ! h)
                     (new_v (incremental_at d n params x t) ! h)
                     None)
            [0..<heads d])
         (wo params)"
proof -
  obtain pk pv where "incremental_at d n params x t
     = masked_local_attention_1d_incremental d n params (x ! t) pk pv (int t)"
    using incremental_at_step by blast
  then show ?thesis by (simp only: step_output)
qed

lemma incremental_at_length:
  assumes "h < heads d"
  shows "length (new_k (incremental_at d n params x t) ! h) = n"
    and "length (new_v (incremental_at d n params x t) ! h) = n"
proof -
  obtain pk pv where "incremental_at d n params x t
     = masked_local_attention_1d_incremental d n params (x ! t) pk pv (int t)"
    using incremental_at_step by blast
  then show "length (new_k (incremental_at d n params x t) ! h) = n"
    "length (new_v (incremental_at d n params x t) ! h) = n"
    using assms by (simp_all only: step_state_length)
qed

lemma window_mset:
  assumes "0 < n" "h < heads d"
  shows "mset (zip (new_k (incremental_at d n params x t) ! h)
                   (new_v (incremental_at d n params x t) ! h))
       = image_mset (\<lambda>g. (proj_row d (wk params) x h g, proj_row d (wv params) x h g))
           (mset_set {int t - int n + 1..int t})"
proof -
  let ?r = "incremental_at d n params x t"
  let ?R = "\<lambda>g. (proj_row d (wk params) x h g, proj_row d (wv params) x h g)"
  let ?f = "\<lambda>s. int t - (int t - int s) mod int n"
  have "zip (new_k ?r ! h) (new_v ?r ! h) = map (\<lambda>s. (new_k ?r ! h ! s, new_v ?r ! h ! s)) [0..<n]"
    using incremental_at_length [OF assms(2)] by (rule zip_nth_map)
  also have "\<dots> = map (\<lambda>s. ?R (?f s)) [0..<n]"
    using incremental_rows [OF assms(1,2)] by (intro map_cong refl) simp
  finally have "mset (zip (new_k ?r ! h) (new_v ?r ! h)) = image_mset ?R (image_mset ?f (mset [0..<n]))"
    by (simp add: multiset.map_comp comp_def)
  then show ?thesis
    by (simp only: window_positions [OF assms(1)])
qed

lemma visible_mset:
  assumes "0 < B" "nb * B = L" "h < heads d" "b < nb" "i < B"
  shows "mset (visible_rows (local_attention_mask B B ! i)
                 (local_k d L nb B B params x ! h ! b) (local_v d L nb B B params x ! h ! b))
       = image_mset (\<lambda>g. (proj_row d (wk params) x h g, proj_row d (wv params) x h g))
           (mset_set {int (b * B + i) - int B + 1..int (b * B + i)})"
proof -
  let ?R = "\<lambda>g. (proj_row d (wk params) x h g, proj_row d (wv params) x h g)"
  let ?f = "\<lambda>j. int (b * B) + int j - int B"
  let ?K = "local_k d L nb B B params x ! h ! b"
  let ?V = "local_v d L nb B B params x ! h ! b"
  have len: "length (local_attention_mask B B ! i) = B + B"
    using assms(5) by (simp add: local_attention_mask_length)
  have rows: "\<And>j. j < B + B \<Longrightarrow> (?K ! j, ?V ! j) = ?R (?f j)"
    using halo_row [OF assms(1,2,3,4)] by (simp add: local_k_def local_v_def)
  have "mset (visible_rows (local_attention_mask B B ! i) ?K ?V)
      = image_mset (\<lambda>j. (?K ! j, ?V ! j))
          (filter_mset (\<lambda>j. local_attention_mask B B ! i ! j = 0) (mset [0..<B + B]))"
    by (simp add: visible_rows_def len)
  also have "\<dots> = image_mset (\<lambda>j. (?K ! j, ?V ! j))
          (filter_mset (\<lambda>j. i < j \<and> j \<le> i + B) (mset [0..<B + B]))"
    using visible_iff [OF assms(5)]
    by (intro arg_cong [where f = "image_mset _"] filter_mset_cong refl) simp
  also have "\<dots> = image_mset (\<lambda>j. ?R (?f j))
          (filter_mset (\<lambda>j. i < j \<and> j \<le> i + B) (mset [0..<B + B]))"
    using rows by (intro image_mset_cong) simp
  also have "\<dots> = image_mset ?R (image_mset ?f
          (filter_mset (\<lambda>j. i < j \<and> j \<le> i + B) (mset [0..<B + B])))"
    by (simp add: multiset.map_comp comp_def)
  finally show ?thesis
    by (simp only: visible_positions [OF assms(5)])
qed

lemma upt_2: "[0..<2] = [0, 1]" by (simp add: upt_rec)
lemma upt_3: "[0..<3] = [0, 1, 2]" by (simp add: upt_rec)

lemma block_partition_length1: "block_partition 1 1 None = Inr (1, 1)"
  by code_simp

lemma block_partition_length2: "block_partition 2 1 None = Inr (1, 2)"
  by code_simp

lemma block_length_loop_pos: "block_length_loop S n = Inr b \<Longrightarrow> 0 < b"
  by (induction n) (auto split: if_splits)

lemma block_partition_pos: "block_partition L W lps = Inr (nb, B) \<Longrightarrow> 0 < B"
  by (auto simp: block_partition_def Let_def block_length_loop_pos split: sum.splits)

lemma masked_local_attention_1d_Inr:
  assumes "masked_local_attention_1d d L W lps params x = Inr ys"
    and "block_partition L W lps = Inr (nb, B)"
  shows "nb * B = L"
    and "t < L \<Longrightarrow> ys ! t = einsum_o_wo d
          (map (\<lambda>h. dot_product_attention (W + B) (kv_channels d) (kv_channels d)
                      (local_q d L nb B params x ! h ! (t div B) ! (t mod B))
                      (local_k d L nb B W params x ! h ! (t div B))
                      (local_v d L nb B W params x ! h ! (t div B))
                      (Some (local_attention_mask W B ! (t mod B))))
             [0..<heads d])
          (wo params)"
proof -
  show nb: "nb * B = L"
    using assms by (simp add: masked_local_attention_1d_def split: if_splits)
  have B: "0 < B" using assms(2) by (rule block_partition_pos)
  assume t: "t < L"
  then have td: "t div B < nb" using nb by (intro less_mult_imp_div_less) simp
  have tm: "t mod B < B" using B by simp
  show "ys ! t = einsum_o_wo d
          (map (\<lambda>h. dot_product_attention (W + B) (kv_channels d) (kv_channels d)
                      (local_q d L nb B params x ! h ! (t div B) ! (t mod B))
                      (local_k d L nb B W params x ! h ! (t div B))
                      (local_v d L nb B W params x ! h ! (t div B))
                      (Some (local_attention_mask W B ! (t mod B))))
             [0..<heads d])
          (wo params)"
    using assms nb t td tm
    by (auto simp add: masked_local_attention_1d_def Let_def reshape_length_def
        intro!: arg_cong2 [where f = "einsum_o_wo d"])
qed

lemma local_q_row:
  assumes "0 < B" "nb * B = L" "h < heads d" "t < L"
  shows "local_q d L nb B params x ! h ! (t div B) ! (t mod B) = einsum_x_w d (x ! t) (wq params) ! h"
proof -
  have td: "t div B < nb" using assms(2,4) by (intro less_mult_imp_div_less) simp
  have tm: "t mod B < B" using assms(1) by simp
  have "local_q d L nb B params x ! h ! (t div B) ! (t mod B)
      = einsum_xs_w d L x (wq params) ! h ! (t div B * B + t mod B)"
    using assms(3) td tm by (simp add: local_q_def reshape_blocks_def)
  also have "\<dots> = einsum_xs_w d L x (wq params) ! h ! t" by simp
  also have "\<dots> = einsum_x_w d (x ! t) (wq params) ! h"
    using assms(3,4) by (simp add: einsum_xs_w_def einsum_x_w_def)
  finally show ?thesis .
qed

lemma window_eq_visible:
  assumes "0 < B" "nb * B = L" "h < heads d" "t < L"
  shows "mset (zip (new_k (incremental_at d B params x t) ! h)
                   (new_v (incremental_at d B params x t) ! h))
       = mset (visible_rows (local_attention_mask B B ! (t mod B))
                 (local_k d L nb B B params x ! h ! (t div B))
                 (local_v d L nb B B params x ! h ! (t div B)))"
proof -
  have td: "t div B < nb" using assms(2,4) by (intro less_mult_imp_div_less) simp
  have tm: "t mod B < B" using assms(1) by simp
  have t: "t div B * B + t mod B = t" by simp
  show ?thesis
    unfolding window_mset [OF assms(1,3)] visible_mset [OF assms(1,2,3) td tm] t ..
qed

lemma exp_float32_nonneg: "0 \<le> exp_float32 x"
  by (simp add: exp_float32_def)

lemma exp_float32_zero: "exp_float32 0 = 1"
  by (simp add: exp_float32_def)

lemma exp_float32_underflow: "x < - 104 \<Longrightarrow> exp_float32 x = 0"
  by (simp add: exp_float32_def)

lemma member_le_sum_list_real:
  fixes f :: "'a \<Rightarrow> real"
  assumes "x \<in> set xs" "\<And>y. y \<in> set xs \<Longrightarrow> 0 \<le> f y"
  shows "f x \<le> sum_list (map f xs)"
  using assms
proof (induction xs)
  case Nil
  then show ?case by simp
next
  case (Cons a as)
  have nn: "0 \<le> sum_list (map f as)"
    by (rule sum_list_nonneg) (use Cons.prems(2) in auto)
  show ?case
  proof (cases "x = a")
    case True
    then show ?thesis using nn by simp
  next
    case False
    then have "f x \<le> sum_list (map f as)" using Cons by simp
    moreover have "0 \<le> f a" using Cons.prems(2) by simp
    ultimately show ?thesis by simp
  qed
qed

lemma logsumexp_sum_ge_one:
  assumes "xs \<noteq> []"
  shows "1 \<le> (\<Sum>y\<leftarrow>xs. exp_float32 (y - Max (set xs)))"
proof -
  have "Max (set xs) \<in> set xs" using assms by (intro Max_in) simp_all
  then have "exp_float32 (Max (set xs) - Max (set xs))
      \<le> (\<Sum>y\<leftarrow>xs. exp_float32 (y - Max (set xs)))"
    by (rule member_le_sum_list_real) (rule exp_float32_nonneg)
  then show ?thesis by (simp add: exp_float32_zero)
qed

lemma reduce_logsumexp_ge_max:
  assumes "xs \<noteq> []"
  shows "Max (set xs) \<le> reduce_logsumexp xs"
proof -
  have "0 \<le> ln (\<Sum>y\<leftarrow>xs. exp_float32 (y - Max (set xs)))"
    using logsumexp_sum_ge_one [OF assms] by simp
  then show ?thesis by (simp add: reduce_logsumexp_def Let_def)
qed

lemma reduce_logsumexp_mset:
  assumes "mset xs = mset ys"
  shows "reduce_logsumexp xs = reduce_logsumexp ys"
proof -
  have s: "set xs = set ys" using assms by (rule mset_eq_setD)
  have "(\<Sum>y\<leftarrow>xs. exp_float32 (y - Max (set ys))) = (\<Sum>y\<leftarrow>ys. exp_float32 (y - Max (set ys)))"
    using assms by (rule sum_list_mset_cong)
  then show ?thesis by (simp add: reduce_logsumexp_def Let_def s)
qed

lemma map_nth_list: "map (\<lambda>i. f (xs ! i)) [0..<length xs] = map f xs"
proof -
  have "map f (map (\<lambda>i. xs ! i) [0..<length xs]) = map f xs" by (simp only: map_nth)
  then show ?thesis by (simp only: map_map comp_def)
qed

text \<open>
  The kernel without a bias is a function of the list of (key, value) rows, and does
  not depend on their order.
\<close>

lemma dot_product_attention_rows:
  assumes "length k = n" "length v = n"
  shows "dot_product_attention n dk dv q k v None =
     map (\<lambda>c. \<Sum>p\<leftarrow>zip k v.
                exp_float32 ((\<Sum>e\<leftarrow>[0..<dk]. q ! e * fst p ! e)
                   - reduce_logsumexp (map (\<lambda>p'. \<Sum>e\<leftarrow>[0..<dk]. q ! e * fst p' ! e) (zip k v)))
                  * snd p ! c)
       [0..<dv]"
proof -
  let ?l = "\<lambda>kr. \<Sum>e\<leftarrow>[0..<dk]. q ! e * kr ! e"
  have z: "zip k v = map (\<lambda>s. (k ! s, v ! s)) [0..<n]"
    using assms by (rule zip_nth_map)
  have logits: "attention_logits n dk q k None = map (\<lambda>j. ?l (k ! j)) [0..<n]"
    by (simp add: attention_logits_def einsum_q_k_def)
  have Z: "map (\<lambda>p'. ?l (fst p')) (zip k v) = map (\<lambda>j. ?l (k ! j)) [0..<n]"
    unfolding z by (simp add: comp_def)
  have w: "\<And>j. j < n \<Longrightarrow> softmax (map (\<lambda>j. ?l (k ! j)) [0..<n]) ! j
      = exp_float32 (?l (k ! j) - reduce_logsumexp (map (\<lambda>p'. ?l (fst p')) (zip k v)))"
    unfolding softmax_def Z by simp
  have "dot_product_attention n dk dv q k v None
      = map (\<lambda>c. \<Sum>j\<leftarrow>[0..<n]. softmax (map (\<lambda>j. ?l (k ! j)) [0..<n]) ! j * v ! j ! c) [0..<dv]"
    by (simp add: dot_product_attention_def Let_def logits einsum_weights_v_def)
  also have "\<dots> = map (\<lambda>c. \<Sum>j\<leftarrow>[0..<n].
        exp_float32 (?l (k ! j) - reduce_logsumexp (map (\<lambda>p'. ?l (fst p')) (zip k v)))
          * v ! j ! c) [0..<dv]"
    using w by (intro map_cong refl arg_cong [where f = sum_list]) simp
  also have "\<dots> = map (\<lambda>c. \<Sum>p\<leftarrow>zip k v.
        exp_float32 (?l (fst p) - reduce_logsumexp (map (\<lambda>p'. ?l (fst p')) (zip k v)))
          * snd p ! c) [0..<dv]"
    by (subst (3) z) (simp add: comp_def)
  finally show ?thesis .
qed

lemma dot_product_attention_permute:
  assumes "length k = n" "length v = n" "length k' = n" "length v' = n"
    and "mset (zip k v) = mset (zip k' v')"
  shows "dot_product_attention n dk dv q k v None = dot_product_attention n dk dv q k' v' None"
proof -
  let ?l = "\<lambda>kr. \<Sum>e\<leftarrow>[0..<dk]. q ! e * kr ! e"
  have "mset (map (\<lambda>p'. ?l (fst p')) (zip k v)) = mset (map (\<lambda>p'. ?l (fst p')) (zip k' v'))"
    by (simp only: mset_map assms(5))
  then have Z: "reduce_logsumexp (map (\<lambda>p'. ?l (fst p')) (zip k v))
      = reduce_logsumexp (map (\<lambda>p'. ?l (fst p')) (zip k' v'))"
    by (rule reduce_logsumexp_mset)
  have "\<And>c. (\<Sum>p\<leftarrow>zip k v. exp_float32 (?l (fst p)
              - reduce_logsumexp (map (\<lambda>p'. ?l (fst p')) (zip k v))) * snd p ! c)
      = (\<Sum>p\<leftarrow>zip k' v'. exp_float32 (?l (fst p)
              - reduce_logsumexp (map (\<lambda>p'. ?l (fst p')) (zip k' v'))) * snd p ! c)"
    unfolding Z using assms(5) by (rule sum_list_mset_cong)
  then show ?thesis
    unfolding dot_product_attention_rows [OF assms(1,2)] dot_product_attention_rows [OF assms(3,4)]
    by simp
qed


text \<open>
  Rows with a bias of \<open>-10\<^sup>9\<close> drop out of the log-sum-exp and get weight zero, as long
  as the logits stay below \<open>4 \<cdot> 10\<^sup>8\<close> in absolute value and one row has bias zero.
\<close>

lemma masked_logsumexp:
  fixes ls bs :: "real list"
  assumes bias: "\<And>j. j < n \<Longrightarrow> bs ! j = 0 \<or> bs ! j = - 1000000000"
    and bound: "\<And>j. j < n \<Longrightarrow> \<bar>ls ! j\<bar> \<le> 400000000"
    and vis: "j0 < n" "bs ! j0 = 0"
  shows "reduce_logsumexp (map (\<lambda>j. ls ! j + bs ! j) [0..<n])
           = reduce_logsumexp (map (\<lambda>j. ls ! j) (filter (\<lambda>j. bs ! j = 0) [0..<n]))"
    and "\<And>j. j < n \<Longrightarrow> bs ! j \<noteq> 0 \<Longrightarrow>
           exp_float32 (ls ! j + bs ! j - reduce_logsumexp (map (\<lambda>j. ls ! j + bs ! j) [0..<n])) = 0"
proof -
  let ?F = "map (\<lambda>j. ls ! j + bs ! j) [0..<n]"
  let ?vis = "filter (\<lambda>j. bs ! j = 0) [0..<n]"
  let ?G = "map (\<lambda>j. ls ! j) ?vis"
  have "j0 \<in> set ?vis" using vis by simp
  then have "0 < length ?vis" by (rule length_pos_if_in_set)
  then have vis_ne: "?vis \<noteq> []" by simp
  then have G_ne: "?G \<noteq> []" by simp
  have F_ne: "?F \<noteq> []" using vis by auto
  define M where "M = Max (set ?G)"
  have Gset: "set ?G \<noteq> {}"
  proof
    assume "set ?G = {}"
    then have "?G = []" by (simp only: set_empty)
    with G_ne show False by (rule notE)
  qed
  have M_in: "M \<in> set ?G" unfolding M_def by (rule Max_in [OF finite_set Gset])
  then obtain jm where jm: "jm < n" "bs ! jm = 0" "M = ls ! jm" by auto
  have M_lo: "- 400000000 \<le> M" using bound [OF jm(1)] jm(3) by simp
  have le: "y \<le> M" if "y \<in> set ?F" for y
  proof -
    from that obtain j where j: "j < n" "y = ls ! j + bs ! j" by auto
    show ?thesis
    proof (cases "bs ! j = 0")
      case True
      then have "y \<in> set ?G" using j by auto
      then show ?thesis unfolding M_def by (intro Max_ge) simp_all
    next
      case False
      then have "bs ! j = - 1000000000" using bias [OF j(1)] by simp
      then show ?thesis using bound [OF j(1)] j(2) M_lo by simp
    qed
  qed
  have "M \<in> set ?F"
  proof -
    have "ls ! jm + bs ! jm \<in> (\<lambda>j. ls ! j + bs ! j) ` set [0..<n]"
      using jm(1) by (intro imageI) simp
    then show ?thesis using jm by simp
  qed
  then have MF: "Max (set ?F) = M" using le by (intro Max_eqI) simp_all
  have masked: "exp_float32 (ls ! j + bs ! j - M - c) = 0" if "j < n" "bs ! j \<noteq> 0" "0 \<le> c" for j c
  proof -
    have "bs ! j = - 1000000000" using bias [OF that(1)] that(2) by simp
    then have "ls ! j + bs ! j - M - c < - 104"
      using bound [OF that(1)] M_lo that(3) by simp
    then show ?thesis by (rule exp_float32_underflow)
  qed
  have "(\<Sum>y\<leftarrow>?F. exp_float32 (y - M)) = (\<Sum>j\<leftarrow>[0..<n]. exp_float32 (ls ! j + bs ! j - M))"
    by (simp add: comp_def)
  also have "\<dots> = (\<Sum>j\<leftarrow>?vis. exp_float32 (ls ! j + bs ! j - M))"
    using masked [where c = 0] by (intro sum_list_map_filter [symmetric]) simp
  also have "\<dots> = (\<Sum>j\<leftarrow>?vis. exp_float32 (ls ! j - M))"
    by (intro arg_cong [where f = sum_list] map_cong refl) simp
  also have "\<dots> = (\<Sum>y\<leftarrow>?G. exp_float32 (y - M))"
    by (simp add: comp_def)
  finally have S: "(\<Sum>y\<leftarrow>?F. exp_float32 (y - M)) = (\<Sum>y\<leftarrow>?G. exp_float32 (y - M))" .
  show eq: "reduce_logsumexp ?F = reduce_logsumexp ?G"
    unfolding reduce_logsumexp_def Let_def MF unfolding M_def [symmetric] S ..
  fix j assume j: "j < n" "bs ! j \<noteq> 0"
  have "M \<le> reduce_logsumexp ?G"
    unfolding M_def using G_ne by (rule reduce_logsumexp_ge_max)
  then have c: "0 \<le> reduce_logsumexp ?G - M" by simp
  have a: "ls ! j + bs ! j - M - (reduce_logsumexp ?G - M)
      = ls ! j + bs ! j - reduce_logsumexp ?G" by simp
  have "exp_float32 (ls ! j + bs ! j - M - (reduce_logsumexp ?G - M)) = 0"
    using j c by (rule masked)
  then show "exp_float32 (ls ! j + bs ! j - reduce_logsumexp ?F) = 0"
    unfolding eq a .
qed


lemma dot_product_attention_drop_masked:
  assumes len: "length bias = n"
    and bias: "\<And>j. j < n \<Longrightarrow> bias ! j = 0 \<or> bias ! j = - 1000000000"
    and bound: "\<And>j. j < n \<Longrightarrow> \<bar>einsum_q_k n dk q k ! j\<bar> \<le> 400000000"
    and vis: "j0 < n" "bias ! j0 = 0"
  shows "dot_product_attention n dk dv q k v (Some bias)
       = dot_product_attention (length (visible_rows bias k v)) dk dv q
           (map fst (visible_rows bias k v)) (map snd (visible_rows bias k v)) None"
proof -
  let ?l = "\<lambda>kr. \<Sum>e\<leftarrow>[0..<dk]. q ! e * kr ! e"
  define L where "L = map (\<lambda>j. ?l (k ! j)) [0..<n]"
  let ?vis = "filter (\<lambda>j. bias ! j = 0) [0..<n]"
  define RF where "RF = reduce_logsumexp (map (\<lambda>j. L ! j + bias ! j) [0..<n])"
  define RG where "RG = reduce_logsumexp (map (\<lambda>j. L ! j) ?vis)"
  have eL: "einsum_q_k n dk q k = L" by (simp add: einsum_q_k_def L_def)
  have Lj: "L ! j = ?l (k ! j)" if "j < n" for j using that by (simp add: L_def)
  have bound': "\<And>j. j < n \<Longrightarrow> \<bar>L ! j\<bar> \<le> 400000000"
    using bound unfolding eL .
  note lse = masked_logsumexp(1) [OF bias bound' vis] masked_logsumexp(2) [OF bias bound' vis]
  have RFG: "RF = RG" unfolding RF_def RG_def by (rule lse(1))
  have masked: "exp_float32 (L ! j + bias ! j - RF) = 0" if "j < n" "bias ! j \<noteq> 0" for j
    unfolding RF_def by (rule lse(2)) (use that in simp_all)
  have vr: "visible_rows bias k v = map (\<lambda>j. (k ! j, v ! j)) ?vis"
    by (simp add: visible_rows_def len)
  have logits: "attention_logits n dk q k (Some bias) = map (\<lambda>j. L ! j + bias ! j) [0..<n]"
    unfolding attention_logits_def eL Let_def by simp
  have wF: "softmax (map (\<lambda>j. L ! j + bias ! j) [0..<n]) ! j
      = exp_float32 (L ! j + bias ! j - RF)" if "j < n" for j
    unfolding softmax_def RF_def using that by simp
  have "dot_product_attention n dk dv q k v (Some bias)
      = map (\<lambda>c. \<Sum>j\<leftarrow>[0..<n]. softmax (map (\<lambda>j. L ! j + bias ! j) [0..<n]) ! j * v ! j ! c)
          [0..<dv]"
    unfolding dot_product_attention_def Let_def logits einsum_weights_v_def ..
  also have "\<dots> = map (\<lambda>c. \<Sum>j\<leftarrow>[0..<n]. exp_float32 (L ! j + bias ! j - RF) * v ! j ! c) [0..<dv]"
    using wF by (intro map_cong refl arg_cong [where f = sum_list]) simp
  also have "\<dots> = map (\<lambda>c. \<Sum>j\<leftarrow>?vis. exp_float32 (L ! j + bias ! j - RF) * v ! j ! c) [0..<dv]"
    using masked by (intro map_cong refl sum_list_map_filter [symmetric]) simp
  also have "\<dots> = map (\<lambda>c. \<Sum>j\<leftarrow>?vis. exp_float32 (?l (k ! j) - RG) * v ! j ! c) [0..<dv]"
    using Lj RFG by (intro map_cong refl arg_cong [where f = sum_list]) simp
  finally have lhs: "dot_product_attention n dk dv q k v (Some bias)
      = map (\<lambda>c. \<Sum>j\<leftarrow>?vis. exp_float32 (?l (k ! j) - RG) * v ! j ! c) [0..<dv]" .
  have z: "zip (map fst (visible_rows bias k v)) (map snd (visible_rows bias k v))
      = map (\<lambda>j. (k ! j, v ! j)) ?vis"
    unfolding vr [symmetric] by (rule zip_map_fst_snd)
  have "map (\<lambda>p'. ?l (fst p')) (map (\<lambda>j. (k ! j, v ! j)) ?vis) = map (\<lambda>j. L ! j) ?vis"
    using Lj by (simp add: comp_def)
  then have RG': "reduce_logsumexp (map (\<lambda>p'. ?l (fst p')) (map (\<lambda>j. (k ! j, v ! j)) ?vis)) = RG"
    unfolding RG_def by (rule arg_cong)
  have "dot_product_attention (length (visible_rows bias k v)) dk dv q
           (map fst (visible_rows bias k v)) (map snd (visible_rows bias k v)) None
      = map (\<lambda>c. \<Sum>p\<leftarrow>map (\<lambda>j. (k ! j, v ! j)) ?vis.
                exp_float32 (?l (fst p) - RG) * snd p ! c) [0..<dv]"
    unfolding dot_product_attention_rows [of "map fst (visible_rows bias k v)"
        "length (visible_rows bias k v)" "map snd (visible_rows bias k v)", OF length_map length_map]
      z RG' ..
  also have "\<dots> = map (\<lambda>c. \<Sum>j\<leftarrow>?vis. exp_float32 (?l (k ! j) - RG) * v ! j ! c) [0..<dv]"
    by (simp add: comp_def)
  finally show ?thesis using lhs by simp
qed

lemma exp_float32_half: "exp_float32 (- ln 2) = 1 / 2"
proof -
  have "\<not> - ln (2::real) < - 104" using ln2_le_one by simp
  then show ?thesis by (simp add: exp_float32_def exp_minus inverse_eq_divide)
qed

lemma exp_float32_masked_half: "exp_float32 (- 1000000000 - ln 2) = 0"
proof -
  have "0 < ln (2::real)" by simp
  then have "- 1000000000 - ln (2::real) < - 104" by linarith
  then show ?thesis by (rule exp_float32_underflow)
qed

lemma exp_float32_numeral [simp]:
  "exp_float32 0 = 1"
  "exp_float32 (- 1000000000) = 0"
  "exp_float32 (- 1999999999) = 0"
  "exp_float32 (- 9000000001000000000) = 0"
  by (simp_all add: exp_float32_def)

lemma incremental_window2_step0:
  "output_y (incremental_at \<lparr>heads = 1, io_channels = 1, kv_channels = 1\<rparr> 2
       \<lparr>wq = [[[0]]], wk = [[[1]]], wv = [[[1]]], wo = [[[1]]]\<rparr> [[1]] 0) = [1 / 2]"
  by (simp add: output_y_def masked_local_attention_1d_incremental_def Let_def
      einsum_x_w_def where_window_def zero_state_def dot_product_attention_def
      attention_logits_def einsum_q_k_def softmax_def reduce_logsumexp_def
      einsum_weights_v_def einsum_o_wo_def upt_2 exp_float32_half)

lemma batch_length1_output:
  "masked_local_attention_1d \<lparr>heads = 1, io_channels = 1, kv_channels = 1\<rparr> 1 1 None
       \<lparr>wq = [[[0]]], wk = [[[1]]], wv = [[[1]]], wo = [[[1]]]\<rparr> [[1]]
     = Inr [[1]]"
  unfolding masked_local_attention_1d_def block_partition_length1
  by (simp add: Let_def local_q_def local_k_def local_v_def
      einsum_xs_w_def reshape_blocks_def reshape_length_def left_halo_exchange_def
      local_attention_mask_def cast_bool_def dot_product_attention_def
      attention_logits_def einsum_q_k_def softmax_def reduce_logsumexp_def
      einsum_weights_v_def einsum_o_wo_def upt_2)

lemma incremental_window1_step0:
  "output_y (incremental_at \<lparr>heads = 1, io_channels = 1, kv_channels = 1\<rparr> 1
       \<lparr>wq = [[[0]]], wk = [[[1]]], wv = [[[1]]], wo = [[[1]]]\<rparr> [[1], [1]] 0) = [1]"
  by (simp add: output_y_def masked_local_attention_1d_incremental_def Let_def
      einsum_x_w_def where_window_def zero_state_def dot_product_attention_def
      attention_logits_def einsum_q_k_def softmax_def reduce_logsumexp_def
      einsum_weights_v_def einsum_o_wo_def)

lemma batch_length2_output:
  "masked_local_attention_1d \<lparr>heads = 1, io_channels = 1, kv_channels = 1\<rparr> 2 1 None
       \<lparr>wq = [[[0]]], wk = [[[1]]], wv = [[[1]]], wo = [[[1]]]\<rparr> [[1], [1]]
     = Inr [[1 / 2], [1]]"
  unfolding masked_local_attention_1d_def block_partition_length2
  by (simp add: Let_def local_q_def local_k_def local_v_def
      einsum_xs_w_def reshape_blocks_def reshape_length_def left_halo_exchange_def
      local_attention_mask_def cast_bool_def dot_product_attention_def
      attention_logits_def einsum_q_k_def softmax_def reduce_logsumexp_def
      einsum_weights_v_def einsum_o_wo_def upt_2 upt_3 exp_float32_half
      exp_float32_masked_half)

lemma block_partition_blocks1: "block_partition 2 1 (Some 1) = Inr (2, 1)"
  by code_simp

lemma incremental_large_logit:
  "output_y (incremental_at \<lparr>heads = 1, io_channels = 1, kv_channels = 1\<rparr> 1
       \<lparr>wq = [[[1]]], wk = [[[1]]], wv = [[[1]]], wo = [[[1]]]\<rparr> [[3000000000], [1]] 1) = [1]"
  by (simp add: output_y_def new_k_def new_v_def masked_local_attention_1d_incremental_def Let_def
      einsum_x_w_def where_window_def zero_state_def dot_product_attention_def
      attention_logits_def einsum_q_k_def softmax_def reduce_logsumexp_def
      einsum_weights_v_def einsum_o_wo_def)

lemma batch_large_logit:
  "masked_local_attention_1d \<lparr>heads = 1, io_channels = 1, kv_channels = 1\<rparr> 2 1 (Some 1)
       \<lparr>wq = [[[1]]], wk = [[[1]]], wv = [[[1]]], wo = [[[1]]]\<rparr> [[3000000000], [1]]
     = Inr [[3000000000], [3000000000]]"
  unfolding masked_local_attention_1d_def block_partition_blocks1
  by (simp add: Let_def local_q_def local_k_def local_v_def
      einsum_xs_w_def reshape_blocks_def reshape_length_def left_halo_exchange_def
      local_attention_mask_def cast_bool_def dot_product_attention_def
      attention_logits_def einsum_q_k_def softmax_def reduce_logsumexp_def
      einsum_weights_v_def einsum_o_wo_def upt_2)

text \<open>
  Claim C1.  Stated for every window length that is at least the radius, the claim that
  the step-by-step run reproduces the output of \<^verbatim>\<open>masked_local_attention_1d\<close> fails.  The
  incremental routine passes no mask to the kernel and attends to its whole window.

  \<^item> With window size 1 and a window of 2 slots on a sequence of length 1, step 0 gives
    half of its weight to the slot that is still zero and returns \<open>1/2\<close>, where the batch
    routine returns \<open>1\<close>.
  \<^item> With window size 1 and a window of 1 slot on a sequence of length 2 the batch
    routine chooses block length 2 and lets position 0 see the zero row before the
    sequence, returning \<open>1/2\<close>, where step 0 returns \<open>1\<close>.
  \<^item> With window size, block length and window all 1 on the sequence \<open>3 \<cdot> 10\<^sup>9, 1\<close>, the
    logit \<open>3 \<cdot> 10\<^sup>9\<close> of the masked row at position 1 outweighs the bias of \<open>-10\<^sup>9\<close>: the
    batch routine returns \<open>3 \<cdot> 10\<^sup>9\<close> there, where step 1 returns \<open>1\<close>.
\<close>

theorem incremental_equals_batch_counterexample:
  "(1::nat) \<le> 2 \<and>
   output_y (incremental_at \<lparr>heads = 1, io_channels = 1, kv_channels = 1\<rparr> 2
       \<lparr>wq = [[[0]]], wk = [[[1]]], wv = [[[1]]], wo = [[[1]]]\<rparr> [[1]] 0) = [1 / 2] \<and>
   masked_local_attention_1d \<lparr>heads = 1, io_channels = 1, kv_channels = 1\<rparr> 1 1 None
       \<lparr>wq = [[[0]]], wk = [[[1]]], wv = [[[1]]], wo = [[[1]]]\<rparr> [[1]]
     = Inr [[1]] \<and>
   (1::nat) \<le> 1 \<and>
   output_y (incremental_at \<lparr>heads = 1, io_channels = 1, kv_channels = 1\<rparr> 1
       \<lparr>wq = [[[0]]], wk = [[[1]]], wv = [[[1]]], wo = [[[1]]]\<rparr> [[1], [1]] 0) = [1] \<and>
   masked_local_attention_1d \<lparr>heads = 1, io_channels = 1, kv_channels = 1\<rparr> 2 1 None
       \<lparr>wq = [[[0]]], wk = [[[1]]], wv = [[[1]]], wo = [[[1]]]\<rparr> [[1], [1]]
     = Inr [[1 / 2], [1]] \<and>
   block_partition 2 1 (Some 1) = Inr (2, 1) \<and>
   output_y (incremental_at \<lparr>heads = 1, io_channels = 1, kv_channels = 1\<rparr> 1
       \<lparr>wq = [[[1]]], wk = [[[1]]], wv = [[[1]]], wo = [[[1]]]\<rparr> [[3000000000], [1]] 1) = [1] \<and>
   masked_local_attention_1d \<lparr>heads = 1, io_channels = 1, kv_channels = 1\<rparr> 2 1 (Some 1)
       \<lparr>wq = [[[1]]], wk = [[[1]]], wv = [[[1]]], wo = [[[1]]]\<rparr> [[3000000000], [1]]
     = Inr [[3000000000], [3000000000]]"
  using incremental_window2_step0 batch_length1_output incremental_window1_step0
    batch_length2_output block_partition_blocks1 incremental_large_logit batch_large_logit
  by simp

lemma local_attention_mask_values:
  assumes "0 < B" "i < B" "j < W + B"
  shows "local_attention_mask W B ! i ! j = 0 \<or> local_attention_mask W B ! i ! j = - 1000000000"
  unfolding local_attention_mask_nth [OF assms(2,3)] using assms(1) by auto

lemma kernel_window_eq_block:
  assumes "0 < B" "nb * B = L" "h < heads d" "t < L"
    and bound: "\<And>j. j < B + B \<Longrightarrow>
          \<bar>einsum_q_k (B + B) (kv_channels d)
             (local_q d L nb B params x ! h ! (t div B) ! (t mod B))
             (local_k d L nb B B params x ! h ! (t div B)) ! j\<bar> \<le> 400000000"
  shows "dot_product_attention B (kv_channels d) (kv_channels d)
           (einsum_x_w d (x ! t) (wq params) ! h)
           (new_k (incremental_at d B params x t) ! h)
           (new_v (incremental_at d B params x t) ! h) None
       = dot_product_attention (B + B) (kv_channels d) (kv_channels d)
           (local_q d L nb B params x ! h ! (t div B) ! (t mod B))
           (local_k d L nb B B params x ! h ! (t div B))
           (local_v d L nb B B params x ! h ! (t div B))
           (Some (local_attention_mask B B ! (t mod B)))"
proof -
  let ?bias = "local_attention_mask B B ! (t mod B)"
  let ?K = "local_k d L nb B B params x ! h ! (t div B)"
  let ?V = "local_v d L nb B B params x ! h ! (t div B)"
  let ?q = "local_q d L nb B params x ! h ! (t div B) ! (t mod B)"
  let ?vr = "visible_rows ?bias ?K ?V"
  let ?r = "incremental_at d B params x t"
  have tm: "t mod B < B" using assms(1) by simp
  have len: "length ?bias = B + B" using tm by (rule local_attention_mask_length(2))
  have vals: "\<And>j. j < B + B \<Longrightarrow> ?bias ! j = 0 \<or> ?bias ! j = - 1000000000"
    using assms(1) tm by (rule local_attention_mask_values)
  have j0: "t mod B + 1 < B + B" using tm by simp
  have v0: "?bias ! (t mod B + 1) = 0"
    using visible_iff [OF tm j0] assms(1) by simp
  have drop: "dot_product_attention (B + B) (kv_channels d) (kv_channels d) ?q ?K ?V (Some ?bias)
      = dot_product_attention (length ?vr) (kv_channels d) (kv_channels d) ?q
          (map fst ?vr) (map snd ?vr) None"
    using len vals bound j0 v0 by (rule dot_product_attention_drop_masked)
  have m: "mset (zip (new_k ?r ! h) (new_v ?r ! h)) = mset ?vr"
    using assms(1,2,3,4) by (rule window_eq_visible)
  have wl: "length (new_k ?r ! h) = B" "length (new_v ?r ! h) = B"
    using incremental_at_length [OF assms(3), of B params x t] by simp_all
  have "size (mset (zip (new_k ?r ! h) (new_v ?r ! h))) = size (mset ?vr)"
    by (simp only: m)
  then have vl: "length ?vr = B" using wl by simp
  have m': "mset (zip (new_k ?r ! h) (new_v ?r ! h)) = mset (zip (map fst ?vr) (map snd ?vr))"
    unfolding zip_map_fst_snd by (rule m)
  have q: "einsum_x_w d (x ! t) (wq params) ! h = ?q"
    using local_q_row [OF assms(1,2,3,4)] by simp
  have "dot_product_attention B (kv_channels d) (kv_channels d) ?q (new_k ?r ! h) (new_v ?r ! h) None
      = dot_product_attention B (kv_channels d) (kv_channels d) ?q (map fst ?vr) (map snd ?vr) None"
    using wl vl m' by (intro dot_product_attention_permute) simp_all
  then show ?thesis unfolding q drop vl .
qed

lemma upt_4: "[0..<4] = [0, 1, 2, 3]" by (simp add: upt_rec)

lemma less_4_cases: "j < 4 \<Longrightarrow> j = 0 \<or> j = 1 \<or> j = 2 \<or> j = (3::nat)"
  by auto

text \<open>
  Claim C1, amended.  Let the batch routine return a result, let its block length equal
  the window size, and let the window of the incremental routine have that length too.
  Let \<open>t\<close> be a position of the sequence at which the logits of the batch routine, before
  the bias is added, are at most \<open>4 \<cdot> 10\<^sup>8\<close> in absolute value.  Then the step-by-step run
  from the zero state returns at step \<open>t\<close> the output of the batch routine at position
  \<open>t\<close>.  Moreover, for every head, its window after step \<open>t\<close> holds, up to the order of the
  slots, exactly the key and value rows of the batch routine's augmented memory block to
  which the bias of position \<open>t\<close> gives zero: the same masking policy.
\<close>

theorem incremental_equals_batch:
  assumes "masked_local_attention_1d d L W lps params x = Inr ys"
    and "block_partition L W lps = Inr (nb, B)"
    and "B = W" and "n = W" and "t < L"
    and "\<forall>h<heads d. \<forall>j<W + B.
           \<bar>einsum_q_k (W + B) (kv_channels d)
              (local_q d L nb B params x ! h ! (t div B) ! (t mod B))
              (local_k d L nb B W params x ! h ! (t div B)) ! j\<bar> \<le> 400000000"
  shows "output_y (incremental_at d n params x t) = ys ! t \<and>
         (\<forall>h<heads d.
            mset (zip (new_k (incremental_at d n params x t) ! h)
                      (new_v (incremental_at d n params x t) ! h))
              = mset (visible_rows (local_attention_mask W B ! (t mod B))
                        (local_k d L nb B W params x ! h ! (t div B))
                        (local_v d L nb B W params x ! h ! (t div B))))"
proof -
  have B: "0 < B" using assms(2) by (rule block_partition_pos)
  have nb: "nb * B = L" using assms(1,2) by (rule masked_local_attention_1d_Inr(1))
  have W: "W = B" and n: "n = B" using assms(3,4) by simp_all
  note batch = masked_local_attention_1d_Inr(2) [OF assms(1,2,5), unfolded W]
  have bound: "\<And>h j. h < heads d \<Longrightarrow> j < B + B \<Longrightarrow>
          \<bar>einsum_q_k (B + B) (kv_channels d)
             (local_q d L nb B params x ! h ! (t div B) ! (t mod B))
             (local_k d L nb B B params x ! h ! (t div B)) ! j\<bar> \<le> 400000000"
    using assms(6) unfolding W by simp
  have kernel: "\<And>h. h < heads d \<Longrightarrow>
      dot_product_attention B (kv_channels d) (kv_channels d)
           (einsum_x_w d (x ! t) (wq params) ! h)
           (new_k (incremental_at d B params x t) ! h)
           (new_v (incremental_at d B params x t) ! h) None
       = dot_product_attention (B + B) (kv_channels d) (kv_channels d)
           (local_q d L nb B params x ! h ! (t div B) ! (t mod B))
           (local_k d L nb B B params x ! h ! (t div B))
           (local_v d L nb B B params x ! h ! (t div B))
           (Some (local_attention_mask B B ! (t mod B)))"
    using kernel_window_eq_block [OF B nb _ assms(5)] bound by simp
  have out: "output_y (incremental_at d B params x t) = ys ! t"
    unfolding incremental_at_output batch
    using kernel by (intro arg_cong2 [where f = "einsum_o_wo d"] map_cong refl) simp
  have rows: "\<forall>h<heads d.
            mset (zip (new_k (incremental_at d B params x t) ! h)
                      (new_v (incremental_at d B params x t) ! h))
              = mset (visible_rows (local_attention_mask B B ! (t mod B))
                        (local_k d L nb B B params x ! h ! (t div B))
                        (local_v d L nb B B params x ! h ! (t div B)))"
    using window_eq_visible [OF B nb _ assms(5)] by simp
  show ?thesis unfolding n W using out rows by (rule conjI)
qed

theorem incremental_equals_batch_witness:
  "\<exists>ys. masked_local_attention_1d \<lparr>heads = 1, io_channels = 1, kv_channels = 1\<rparr> 4 2 (Some 2)
            \<lparr>wq = [[[1]]], wk = [[[1]]], wv = [[[1]]], wo = [[[1]]]\<rparr> [[1], [2], [3], [4]] = Inr ys
      \<and> block_partition 4 2 (Some 2) = Inr (2, 2)
      \<and> output_y (incremental_at \<lparr>heads = 1, io_channels = 1, kv_channels = 1\<rparr> 2
            \<lparr>wq = [[[1]]], wk = [[[1]]], wv = [[[1]]], wo = [[[1]]]\<rparr> [[1], [2], [3], [4]] 3)
          = ys ! 3"
proof -
  let ?d = "\<lparr>heads = 1, io_channels = 1, kv_channels = 1\<rparr>"
  let ?p = "\<lparr>wq = [[[1]]], wk = [[[1]]], wv = [[[1]]], wo = [[[1]]]\<rparr>"
  let ?x = "[[1], [2], [3], [4]] :: real list list"
  have bp: "block_partition 4 2 (Some 2) = Inr (2, 2)"
    by code_simp
  obtain ys where ys: "masked_local_attention_1d ?d 4 2 (Some 2) ?p ?x = Inr ys"
    unfolding masked_local_attention_1d_def bp by simp
  have t: "(3::nat) < 4" by simp
  have bound: "\<forall>h<heads ?d. \<forall>j<2 + 2.
           \<bar>einsum_q_k (2 + 2) (kv_channels ?d)
              (local_q ?d 4 2 2 ?p ?x ! h ! (3 div 2) ! (3 mod 2))
              (local_k ?d 4 2 2 2 ?p ?x ! h ! (3 div 2)) ! j\<bar> \<le> 400000000"
    by (auto dest!: less_4_cases
        simp: einsum_q_k_def local_q_def local_k_def einsum_xs_w_def reshape_blocks_def
          left_halo_exchange_def Let_def upt_2 upt_4)
  from incremental_equals_batch [OF ys bp refl refl t bound] ys bp
  show ?thesis by blast
qed

end
